theory Spec2Isabelle
  imports Main
begin

section \<open>Data model (models/Campaign.ts, models/Settings.ts)\<close>

text \<open>
  The campaign document of \<^verbatim>\<open>models/Campaign.ts\<close>. Only the fields the campaign
  execution code reads or writes are kept; timestamps (\<^verbatim>\<open>new Date()\<close>) and the owning
  user are left out, since no branch of the code depends on them.
\<close>

datatype campaign_status = Draft | Running | Paused | Completed

datatype campaign_type = Sms | Email | Call | All

datatype method_status = MPending | Sent | Failed | Delivered

datatype overall_status = OPending | Partial | Success | OFailed

record contact =
  name :: string
  phone :: "string option"
  email :: "string option"

record message_template =
  subject :: "string option"
  body :: string
  isHtml :: "bool option"

text \<open>
  \<^verbatim>\<open>IMethodResult\<close>. The field \<open>mr_method\<close> holds the channel name; the queue handler
  stores its \<^verbatim>\<open>campaignType\<close> there, which at run time can be \<^verbatim>\<open>'all'\<close>, so the field has
  the type of the campaign type.
\<close>

record method_result =
  mr_method :: campaign_type
  mr_status :: method_status
  response :: "string option"
  error :: "string option"

record campaign_result =
  contactId :: string
  contactName :: string
  methods :: "method_result list"
  overallStatus :: overall_status

record campaign =
  ctype :: campaign_type
  status :: campaign_status
  contacts :: "contact list"
  messageTemplate :: message_template
  results :: "campaign_result list"
  totalContacts :: nat
  successCount :: nat
  failureCount :: nat

text \<open>The two \<^verbatim>\<open>voiceCall\<close> settings the queue handler inspects.\<close>

record settings =
  dynamicInstruction :: string
  apiKey :: string

section \<open>The environment of a run\<close>

text \<open>
  What a store read (\<^verbatim>\<open>Campaign.findById\<close>, \<^verbatim>\<open>Campaign.findOne\<close>) can do: reject with an
  error, resolve to \<^verbatim>\<open>null\<close>, or resolve to the persisted document.
\<close>

datatype read_result = ReadThrows string | ReadNull | ReadDoc

text \<open>
  The collaborators of the engine, as a script of their outcomes. A gateway call either
  throws (\<open>Inl\<close> of the message) or returns the provider's data (\<open>Inr\<close>): \<open>None\<close> when the
  data is falsy, otherwise its JSON text. A save is \<open>None\<close> when it succeeds and \<open>Some\<close>
  of the message when it throws. Gateway calls and the per-contact store operations are
  indexed by the contact index.
  \<^item> \<open>findSettings\<close>: \<^verbatim>\<open>Settings.findOne\<close> (\<open>Inl\<close> when it throws, \<open>Inr None\<close> for \<^verbatim>\<open>null\<close>);
  \<^item> \<open>findStart\<close>, \<open>saveStart\<close>: the read of \<^verbatim>\<open>startCampaign\<close> and the save that writes
    \<^verbatim>\<open>running\<close> (in \<^verbatim>\<open>startCampaign\<close> and in the \<^verbatim>\<open>start-campaign\<close> job);
  \<^item> \<open>findInitial\<close>: the first \<^verbatim>\<open>findById\<close> of a run (or of the \<^verbatim>\<open>start-campaign\<close> job);
  \<^item> \<open>findReread i\<close>, \<open>saveContact i\<close>: the re-read before contact \<open>i\<close> and the save
    after it (in the queue path, the read and the save of job \<open>i\<close>);
  \<^item> \<open>pauseRequested i\<close>: a pause request (\<^verbatim>\<open>pauseCampaign\<close>) has been served by the time
    contact \<open>i\<close> re-reads the campaign;
  \<^item> \<open>saveFinal\<close>: the save after the loop; \<open>findRecovery\<close>, \<open>saveRecovery\<close>: the read
    and the save of the outer \<^verbatim>\<open>catch\<close>.
\<close>

record env =
  sendSMS :: "nat \<Rightarrow> string \<Rightarrow> string \<Rightarrow> string + string option"
  sendEmail :: "nat \<Rightarrow> string \<Rightarrow> string \<Rightarrow> string \<Rightarrow> bool \<Rightarrow> string + string option"
  makeOutboundCall :: "nat \<Rightarrow> string \<Rightarrow> string \<Rightarrow> settings \<Rightarrow> string + string option"
  findSettings :: "string + settings option"
  findStart :: read_result
  saveStart :: "string option"
  findInitial :: read_result
  findReread :: "nat \<Rightarrow> read_result"
  pauseRequested :: "nat \<Rightarrow> bool"
  saveContact :: "nat \<Rightarrow> string option"
  saveFinal :: "string option"
  findRecovery :: read_result
  saveRecovery :: "string option"

section \<open>Helpers of the language\<close>


text \<open>\<^verbatim>\<open>a || b\<close> on an optional string with a default.\<close>

definition or_default :: "string option \<Rightarrow> string \<Rightarrow> string" where
  "or_default s d = (case s of None \<Rightarrow> d | Some v \<Rightarrow> if v = [] then d else v)"

definition or_false :: "bool option \<Rightarrow> bool" where
  "or_false b = (case b of None \<Rightarrow> False | Some v \<Rightarrow> v)"

text \<open>The template literal \<^verbatim>\<open>`${i}`\<close>: the decimal digits of the index.\<close>

definition digit_char :: "nat \<Rightarrow> char" where
  "digit_char d =
     (if d = 0 then CHR ''0'' else if d = 1 then CHR ''1'' else if d = 2 then CHR ''2''
      else if d = 3 then CHR ''3'' else if d = 4 then CHR ''4'' else if d = 5 then CHR ''5''
      else if d = 6 then CHR ''6'' else if d = 7 then CHR ''7'' else if d = 8 then CHR ''8''
      else CHR ''9'')"

fun string_of_nat :: "nat \<Rightarrow> string" where
  "string_of_nat n =
     (if n < 10 then [digit_char n]
      else string_of_nat (n div 10) @ [digit_char (n mod 10)])"

section \<open>pauseCampaign and startCampaign (controllers)\<close>

text \<open>
  An HTTP answer: status code, the \<^verbatim>\<open>success\<close> flag and the message. \<open>Unhandled\<close> is an
  exception that leaves the handler (\<^verbatim>\<open>asyncHandler\<close> forwards it to the error middleware).
\<close>

datatype http_response = Response nat bool string | Unhandled string

text \<open>
  Every \<^verbatim>\<open>save\<close> runs the schema's pre-save hook, which sets \<^verbatim>\<open>totalContacts\<close> to the
  number of contacts.
\<close>

definition pre_save :: "campaign \<Rightarrow> campaign" where
  "pre_save c = c\<lparr>totalContacts := length (contacts c)\<rparr>"

text \<open>
  \<^verbatim>\<open>pauseCampaign\<close>, for a campaign that is found and a store that works: only a running
  campaign is paused.
\<close>

definition pauseCampaign :: "campaign \<Rightarrow> http_response \<times> campaign" where
  "pauseCampaign db =
     (if status db = Running
      then (Response 200 True ''Campaign paused successfully'', pre_save (db\<lparr>status := Paused\<rparr>))
      else (Response 400 False ''Campaign is not running'', db))"

text \<open>
  \<^verbatim>\<open>startCampaign\<close>: the answer, the persisted campaign, and whether the background run
  (\<^verbatim>\<open>processCampaignDirectly\<close>) has been launched.
\<close>

definition startCampaign :: "env \<Rightarrow> campaign \<Rightarrow> http_response \<times> campaign \<times> bool" where
  "startCampaign e db =
     (case findStart e of
        ReadThrows err \<Rightarrow> (Unhandled err, db, False)
      | ReadNull \<Rightarrow> (Response 404 False ''Campaign not found'', db, False)
      | ReadDoc \<Rightarrow>
          if status db = Running
          then (Response 400 False ''Campaign is already running'', db, False)
          else if status db = Completed
          then (Response 400 False ''Campaign is already completed'', db, False)
          else (case saveStart e of
                  Some err \<Rightarrow> (Unhandled err, db, False)
                | None \<Rightarrow>
                    (Response 200 True ''Campaign started successfully'',
                     pre_save (db\<lparr>status := Running\<rparr>), True)))"

section \<open>processCampaignDirectly (the direct path)\<close>

definition methodsToExecute :: "campaign_type \<Rightarrow> campaign_type list" where
  "methodsToExecute t = (if t = All then [Sms, Email, Call] else [t])"

text \<open>
  One channel attempt of the direct path, the body of the inner \<^verbatim>\<open>try\<close>: \<open>Inl\<close> is the
  message of the error that the inner \<^verbatim>\<open>catch\<close> receives, \<open>Inr\<close> the stored response. The
  \<^verbatim>\<open>switch\<close> has no case for \<^verbatim>\<open>'all'\<close>, so that value falls through with no result.
\<close>

definition attempt_direct ::
  "env \<Rightarrow> settings option \<Rightarrow> message_template \<Rightarrow> nat \<Rightarrow> contact \<Rightarrow> campaign_type
     \<Rightarrow> string + string option" where
  "attempt_direct e st tmpl i k m =
     (case m of
        Sms \<Rightarrow>
          (case phone k of
             None \<Rightarrow> Inl ''Phone number required for SMS''
           | Some p \<Rightarrow>
               if p = [] then Inl ''Phone number required for SMS''
               else sendSMS e i (body tmpl) p)
      | Email \<Rightarrow>
          (case email k of
             None \<Rightarrow> Inl ''Email required for email''
           | Some a \<Rightarrow>
               if a = [] then Inl ''Email required for email''
               else sendEmail e i (or_default (subject tmpl) ''Message'') (body tmpl) a
                      (or_false (isHtml tmpl)))
      | Call \<Rightarrow>
          (case phone k of
             None \<Rightarrow> Inl ''Phone number required for call''
           | Some p \<Rightarrow>
               if p = [] then Inl ''Phone number required for call''
               else (case st of
                       None \<Rightarrow> Inl ''Settings not configured for calls''
                     | Some s \<Rightarrow> makeOutboundCall e i p (name k) s))
      | All \<Rightarrow> Inr None)"

text \<open>
  The record pushed to \<^verbatim>\<open>methods\<close> for one attempt: \<^verbatim>\<open>sent\<close> with the response, or
  \<^verbatim>\<open>failed\<close> with the message of the error.
\<close>

definition method_entry :: "campaign_type \<Rightarrow> string + string option \<Rightarrow> method_result" where
  "method_entry t a =
     (case a of
        Inr r \<Rightarrow> \<lparr>mr_method = t, mr_status = Sent, response = r, error = None\<rparr>
      | Inl err \<Rightarrow> \<lparr>mr_method = t, mr_status = Failed, response = None, error = Some err\<rparr>)"

text \<open>
  The loop over \<^verbatim>\<open>methodsToExecute\<close>, with the three accumulators \<^verbatim>\<open>methods\<close>,
  \<^verbatim>\<open>successfulMethods\<close> and \<^verbatim>\<open>failedMethods\<close>.
\<close>

fun execute_methods ::
  "env \<Rightarrow> settings option \<Rightarrow> message_template \<Rightarrow> nat \<Rightarrow> contact \<Rightarrow> campaign_type list
     \<Rightarrow> method_result list \<times> nat \<times> nat \<Rightarrow> method_result list \<times> nat \<times> nat" where
  "execute_methods e st tmpl i k [] acc = acc"
| "execute_methods e st tmpl i k (m # ms) (mrs, successfulMethods, failedMethods) =
     (case attempt_direct e st tmpl i k m of
        Inr r \<Rightarrow>
          execute_methods e st tmpl i k ms
            (mrs @ [method_entry m (Inr r)], successfulMethods + 1, failedMethods)
      | Inl err \<Rightarrow>
          execute_methods e st tmpl i k ms
            (mrs @ [method_entry m (Inl err)], successfulMethods, failedMethods + 1))"

text \<open>
  The counters after the method loop (\<^verbatim>\<open>successfulMethods === methodsToExecute.length\<close>,
  \<^verbatim>\<open>successfulMethods > 0\<close>, otherwise).
\<close>

definition count_contact :: "nat \<Rightarrow> nat \<Rightarrow> campaign \<Rightarrow> campaign" where
  "count_contact successfulMethods n c =
     (if successfulMethods = n then c\<lparr>successCount := successCount c + 1\<rparr>
      else if successfulMethods > 0 then c\<lparr>successCount := successCount c + 1\<rparr>
      else c\<lparr>failureCount := failureCount c + 1\<rparr>)"

text \<open>The status stored with the result, recomputed from the recorded methods.\<close>

definition overall_of :: "method_result list \<Rightarrow> overall_status" where
  "overall_of mrs =
     (if list_all (\<lambda>m. mr_status m = Sent) mrs then Success
      else if list_ex (\<lambda>m. mr_status m = Sent) mrs then Partial
      else OFailed)"

text \<open>
  The state of a run: the in-memory document \<^verbatim>\<open>campaign\<close> and the persisted one. A save
  writes the paths the run has modified (results, the two counters and, through the
  hook, \<^verbatim>\<open>totalContacts\<close>); the persisted status is not among them, so a pause written by
  \<^verbatim>\<open>pauseCampaign\<close> stays in the store until the run writes a status itself.
\<close>

type_synonym run_state = "campaign \<times> campaign"

datatype loop_exit = Continue run_state | Break run_state | Throw string run_state

definition save_progress :: "campaign \<Rightarrow> campaign \<Rightarrow> run_state" where
  "save_progress mem db =
     (let mem' = pre_save mem
      in (mem', db\<lparr>results := results mem', successCount := successCount mem',
                   failureCount := failureCount mem',
                   totalContacts := totalContacts mem'\<rparr>))"

text \<open>
  The part of an iteration after the per-contact \<^verbatim>\<open>try\<close>/\<^verbatim>\<open>catch\<close>: push the result,
  then save. A failing save throws out of the loop.
\<close>

definition record_result ::
  "env \<Rightarrow> nat \<Rightarrow> contact \<Rightarrow> method_result list \<Rightarrow> run_state \<Rightarrow> loop_exit" where
  "record_result e i k mrs s =
     (let r = \<lparr>contactId = string_of_nat i, contactName = name k, methods = mrs,
               overallStatus = overall_of mrs\<rparr>;
          mem' = (fst s)\<lparr>results := results (fst s) @ [r]\<rparr>
      in case saveContact e i of
           Some err \<Rightarrow> Throw err (mem', snd s)
         | None \<Rightarrow> Continue (save_progress mem' (snd s)))"

text \<open>The per-contact \<^verbatim>\<open>try\<close> block once the pause check has passed.\<close>

definition attempt_contact ::
  "env \<Rightarrow> settings option \<Rightarrow> nat \<Rightarrow> contact \<Rightarrow> run_state \<Rightarrow> loop_exit" where
  "attempt_contact e st i k s =
     (let ms = methodsToExecute (ctype (fst s));
          (mrs, successfulMethods, failedMethods) =
             execute_methods e st (messageTemplate (fst s)) i k ms ([], 0, 0)
      in record_result e i k mrs (count_contact successfulMethods (length ms) (fst s), snd s))"

text \<open>
  One iteration of the contact loop. The store may have received a pause request by the
  time of the re-read. A re-read that throws is caught by the per-contact \<^verbatim>\<open>catch\<close>,
  which counts a failure; the result is then pushed with the methods recorded so far
  (none). A re-read that finds nothing is not a pause (\<^verbatim>\<open>updatedCampaign?.status\<close>).
\<close>

definition process_contact ::
  "env \<Rightarrow> settings option \<Rightarrow> nat \<Rightarrow> contact \<Rightarrow> run_state \<Rightarrow> loop_exit" where
  "process_contact e st i k s =
     (let db = (if pauseRequested e i then snd (pauseCampaign (snd s)) else snd s)
      in case findReread e i of
           ReadThrows err \<Rightarrow>
             record_result e i k [] ((fst s)\<lparr>failureCount := failureCount (fst s) + 1\<rparr>, db)
         | ReadNull \<Rightarrow> attempt_contact e st i k (fst s, db)
         | ReadDoc \<Rightarrow>
             if status db = Paused then Break (fst s, db)
             else attempt_contact e st i k (fst s, db))"

text \<open>
  \<^verbatim>\<open>for (let i = 0; i < campaign.contacts.length; i++)\<close>: the loop never changes the
  contact list, so it is a recursion over the contacts that remain, with the index.
\<close>

fun contact_loop ::
  "env \<Rightarrow> settings option \<Rightarrow> nat \<Rightarrow> contact list \<Rightarrow> run_state \<Rightarrow> loop_exit" where
  "contact_loop e st i [] s = Continue s"
| "contact_loop e st i (k # ks) s =
     (case process_contact e st i k s of
        Continue s' \<Rightarrow> contact_loop e st (Suc i) ks s'
      | Break s' \<Rightarrow> Break s'
      | Throw err s' \<Rightarrow> Throw err s')"

text \<open>
  The statements after the loop, reached by the natural exit and by \<^verbatim>\<open>break\<close> alike:
  \<^verbatim>\<open>campaign.status = 'completed'; await campaign.save()\<close>.
\<close>

datatype try_exit = Done campaign | Thrown string campaign

definition mark_completed :: "env \<Rightarrow> run_state \<Rightarrow> try_exit" where
  "mark_completed e s =
     (case saveFinal e of
        Some err \<Rightarrow> Thrown err (snd s)
      | None \<Rightarrow>
          Done ((snd (save_progress ((fst s)\<lparr>status := Completed\<rparr>) (snd s)))
                  \<lparr>status := Completed\<rparr>))"

text \<open>The outer \<^verbatim>\<open>try\<close> block; the second component is the persisted campaign.\<close>

definition try_block :: "env \<Rightarrow> campaign \<Rightarrow> try_exit" where
  "try_block e db =
     (case findInitial e of
        ReadThrows err \<Rightarrow> Thrown err db
      | ReadNull \<Rightarrow> Thrown ''Campaign not found'' db
      | ReadDoc \<Rightarrow>
          (case findSettings e of
             Inl err \<Rightarrow> Thrown err db
           | Inr st \<Rightarrow>
               (case contact_loop e st 0 (contacts db) (db, db) of
                  Continue s \<Rightarrow> mark_completed e s
                | Break s \<Rightarrow> mark_completed e s
                | Throw err s \<Rightarrow> Thrown err (snd s))))"

text \<open>
  The outer \<^verbatim>\<open>catch\<close>: read the campaign again and, if it is found, set it to paused and
  save. An error in the handler itself leaves the function as a rejected promise.
\<close>

datatype run_outcome = Resolved | Rejected string

definition recover :: "env \<Rightarrow> campaign \<Rightarrow> run_outcome \<times> campaign" where
  "recover e db =
     (case findRecovery e of
        ReadThrows err \<Rightarrow> (Rejected err, db)
      | ReadNull \<Rightarrow> (Resolved, db)
      | ReadDoc \<Rightarrow>
          (case saveRecovery e of
             Some err \<Rightarrow> (Rejected err, db)
           | None \<Rightarrow> (Resolved, pre_save (db\<lparr>status := Paused\<rparr>))))"

definition processCampaignDirectly :: "env \<Rightarrow> campaign \<Rightarrow> run_outcome \<times> campaign" where
  "processCampaignDirectly e db =
     (case try_block e db of
        Done db' \<Rightarrow> (Resolved, db')
      | Thrown err db' \<Rightarrow> recover e db')"

text \<open>\<^verbatim>\<open>startCampaign\<close> followed by the background run it launches.\<close>

definition start_and_run :: "env \<Rightarrow> campaign \<Rightarrow> http_response \<times> campaign" where
  "start_and_run e db =
     (case startCampaign e db of
        (r, db', launched) \<Rightarrow>
          if launched then (r, snd (processCampaignDirectly e db')) else (r, db'))"

section \<open>The queue path (queues/campaign.queue.ts)\<close>

text \<open>The data of a \<^verbatim>\<open>process-contact\<close> job (\<^verbatim>\<open>ContactJobData\<close>), for one campaign.\<close>

record contact_job =
  job_contact :: contact
  contactIndex :: nat
  job_messageTemplate :: message_template
  campaignType :: campaign_type

text \<open>The loop of the \<^verbatim>\<open>start-campaign\<close> handler that adds one job per contact.\<close>

fun enqueue_contacts ::
  "nat \<Rightarrow> contact list \<Rightarrow> message_template \<Rightarrow> campaign_type \<Rightarrow> contact_job list" where
  "enqueue_contacts i [] tmpl t = []"
| "enqueue_contacts i (k # ks) tmpl t =
     \<lparr>job_contact = k, contactIndex = i, job_messageTemplate = tmpl, campaignType = t\<rparr>
       # enqueue_contacts (Suc i) ks tmpl t"

text \<open>
  The \<^verbatim>\<open>start-campaign\<close> handler: \<open>Inl\<close> when it throws, otherwise the persisted campaign
  and the jobs it has queued (the queue itself is taken to accept them).
\<close>

definition start_campaign_job :: "env \<Rightarrow> campaign \<Rightarrow> string + campaign \<times> contact_job list" where
  "start_campaign_job e db =
     (case findInitial e of
        ReadThrows err \<Rightarrow> Inl err
      | ReadNull \<Rightarrow> Inl ''Campaign not found''
      | ReadDoc \<Rightarrow>
          (case saveStart e of
             Some err \<Rightarrow> Inl err
           | None \<Rightarrow>
               Inr (pre_save (db\<lparr>status := Running\<rparr>),
                    enqueue_contacts 0 (contacts db) (messageTemplate db) (ctype db))))"

text \<open>
  The channel attempt of the \<^verbatim>\<open>process-contact\<close> handler, the body of its inner
  \<^verbatim>\<open>try\<close>. The settings are read inside it, so a failing read is a failed attempt.
\<close>

definition attempt_queue :: "env \<Rightarrow> contact_job \<Rightarrow> string + string option" where
  "attempt_queue e j =
     (case campaignType j of
        Sms \<Rightarrow>
          (case phone (job_contact j) of
             None \<Rightarrow> Inl ''Phone number is required for SMS''
           | Some p \<Rightarrow>
               if p = [] then Inl ''Phone number is required for SMS''
               else sendSMS e (contactIndex j) (body (job_messageTemplate j)) p)
      | Email \<Rightarrow>
          (case email (job_contact j) of
             None \<Rightarrow> Inl ''Email is required for email campaign''
           | Some a \<Rightarrow>
               if a = [] then Inl ''Email is required for email campaign''
               else sendEmail e (contactIndex j)
                      (or_default (subject (job_messageTemplate j)) ''Message'')
                      (body (job_messageTemplate j)) a
                      (or_false (isHtml (job_messageTemplate j))))
      | Call \<Rightarrow>
          (case phone (job_contact j) of
             None \<Rightarrow> Inl ''Phone number is required for call''
           | Some p \<Rightarrow>
               if p = [] then Inl ''Phone number is required for call''
               else (case findSettings e of
                       Inl err \<Rightarrow> Inl err
                     | Inr None \<Rightarrow>
                         Inl ''Voice call settings not found. Please configure in Settings.''
                     | Inr (Some s) \<Rightarrow>
                         if dynamicInstruction s = [] \<or> apiKey s = []
                         then Inl ''Voice call settings incomplete. Please configure dynamic instruction and API key.''
                         else makeOutboundCall e (contactIndex j) p (name (job_contact j)) s))
      | All \<Rightarrow> Inl ''Invalid campaign type: all'')"

text \<open>
  What a \<^verbatim>\<open>process-contact\<close> job leaves behind: it returned after saving, it returned
  early because the campaign is paused, or it threw. The campaign is the persisted one.
\<close>

datatype job_exit = JobReturned campaign | JobSkipped campaign | JobThrew string campaign

text \<open>
  The counter the handler increments, and the document after the push of the result and
  the completion check (\<^verbatim>\<open>results.length >= totalContacts\<close>, with the \<^verbatim>\<open>totalContacts\<close>
  that was read).
\<close>

definition job_count :: "string + string option \<Rightarrow> campaign \<Rightarrow> campaign" where
  "job_count a c =
     (case a of
        Inr r \<Rightarrow> c\<lparr>successCount := successCount c + 1\<rparr>
      | Inl err \<Rightarrow> c\<lparr>failureCount := failureCount c + 1\<rparr>)"

definition job_push :: "contact_job \<Rightarrow> string + string option \<Rightarrow> campaign \<Rightarrow> campaign" where
  "job_push j a c =
     (let mr = method_entry (campaignType j) a;
          c' = c\<lparr>results := results c @
                  [\<lparr>contactId = string_of_nat (contactIndex j),
                    contactName = name (job_contact j), methods = [mr],
                    overallStatus = (if mr_status mr = Sent then Success else OFailed)\<rparr>]\<rparr>
      in if length (results c') \<ge> totalContacts c' then c'\<lparr>status := Completed\<rparr> else c')"

text \<open>
  The \<^verbatim>\<open>process-contact\<close> handler. The schema allows only \<^verbatim>\<open>sms\<close>, \<^verbatim>\<open>email\<close> and
  \<^verbatim>\<open>call\<close> as the method of a result, so the save of a result whose method is \<^verbatim>\<open>all\<close>
  fails validation.
\<close>

definition process_contact_job :: "env \<Rightarrow> contact_job \<Rightarrow> campaign \<Rightarrow> job_exit" where
  "process_contact_job e j db0 =
     (let i = contactIndex j;
          db = (if pauseRequested e i then snd (pauseCampaign db0) else db0)
      in case findReread e i of
           ReadThrows err \<Rightarrow> JobThrew err db
         | ReadNull \<Rightarrow> JobThrew ''Campaign not found'' db
         | ReadDoc \<Rightarrow>
             if status db = Paused then JobSkipped db
             else (let a = attempt_queue e j;
                       c = job_push j a (job_count a db)
                   in if campaignType j = All
                      then JobThrew ''Campaign validation failed: method is not a valid enum value'' db
                      else (case saveContact e i of
                              Some err \<Rightarrow> JobThrew err db
                            | None \<Rightarrow> JobReturned (pre_save c))))"

text \<open>
  The jobs in the order of their delays (\<^verbatim>\<open>i * 1000\<close>), each run once. A job that throws
  leaves the store as it was; the queue's later retries of it are not followed.
\<close>

fun run_contact_jobs :: "env \<Rightarrow> contact_job list \<Rightarrow> campaign \<Rightarrow> campaign" where
  "run_contact_jobs e [] db = db"
| "run_contact_jobs e (j # js) db =
     (case process_contact_job e j db of
        JobReturned db' \<Rightarrow> run_contact_jobs e js db'
      | JobSkipped db' \<Rightarrow> run_contact_jobs e js db'
      | JobThrew err db' \<Rightarrow> run_contact_jobs e js db')"

definition queue_path :: "env \<Rightarrow> campaign \<Rightarrow> campaign" where
  "queue_path e db =
     (case start_campaign_job e db of
        Inl err \<Rightarrow> db
      | Inr (db', jobs) \<Rightarrow> run_contact_jobs e jobs db')"

section \<open>Notions used in the statements and proofs\<close>

text \<open>
  The state a loop exit carries, and which exit it is.
\<close>

definition exit_state :: "loop_exit \<Rightarrow> run_state" where
  "exit_state x = (case x of Continue s \<Rightarrow> s | Break s \<Rightarrow> s | Throw err s \<Rightarrow> s)"

definition is_throw :: "loop_exit \<Rightarrow> bool" where
  "is_throw x = (case x of Continue s \<Rightarrow> False | Break s \<Rightarrow> False | Throw err s \<Rightarrow> True)"

definition left_by_break :: "loop_exit \<Rightarrow> bool" where
  "left_by_break x = (case x of Break s \<Rightarrow> True | Continue s \<Rightarrow> False | Throw err s \<Rightarrow> False)"

text \<open>
  The method loop has a closed form: \<open>attempted\<close> is the list it records and \<open>succeeded\<close>
  says that \<^verbatim>\<open>successfulMethods\<close> ends above zero (see \<open>execute_methods_acc\<close> and
  \<open>attempt_contact_eq\<close> below).
\<close>

definition attempted :: "env \<Rightarrow> settings option \<Rightarrow> message_template \<Rightarrow> campaign_type \<Rightarrow> nat \<Rightarrow> contact \<Rightarrow> method_result list" where
  "attempted e st tmpl t i k =
     map (\<lambda>m. method_entry m (attempt_direct e st tmpl i k m)) (methodsToExecute t)"

definition succeeded :: "env \<Rightarrow> settings option \<Rightarrow> message_template \<Rightarrow> campaign_type \<Rightarrow> nat \<Rightarrow> contact \<Rightarrow> bool" where
  "succeeded e st tmpl t i k =
     list_ex (\<lambda>m. \<not> isl (attempt_direct e st tmpl i k m)) (methodsToExecute t)"

text \<open>
  What one iteration of the contact loop records when it is not stopped by a pause and its
  save succeeds: the methods, whether \<^verbatim>\<open>successCount\<close> (rather than \<^verbatim>\<open>failureCount\<close>) is
  incremented, and the pushed result; \<open>loop_outcomes\<close> lists them for the contacts that
  remain.
\<close>

definition iter_methods :: "env \<Rightarrow> settings option \<Rightarrow> message_template \<Rightarrow> campaign_type \<Rightarrow> nat \<Rightarrow> contact \<Rightarrow> method_result list" where
  "iter_methods e st tmpl t i k =
     (case findReread e i of
        ReadThrows err \<Rightarrow> []
      | ReadNull \<Rightarrow> attempted e st tmpl t i k
      | ReadDoc \<Rightarrow> attempted e st tmpl t i k)"

definition iter_success :: "env \<Rightarrow> settings option \<Rightarrow> message_template \<Rightarrow> campaign_type \<Rightarrow> nat \<Rightarrow> contact \<Rightarrow> bool" where
  "iter_success e st tmpl t i k =
     (case findReread e i of
        ReadThrows err \<Rightarrow> False
      | ReadNull \<Rightarrow> succeeded e st tmpl t i k
      | ReadDoc \<Rightarrow> succeeded e st tmpl t i k)"

definition iter_result :: "env \<Rightarrow> settings option \<Rightarrow> message_template \<Rightarrow> campaign_type \<Rightarrow> nat \<Rightarrow> contact \<Rightarrow> campaign_result" where
  "iter_result e st tmpl t i k =
     \<lparr>contactId = string_of_nat i, contactName = name k,
      methods = iter_methods e st tmpl t i k,
      overallStatus = overall_of (iter_methods e st tmpl t i k)\<rparr>"

fun loop_outcomes :: "env \<Rightarrow> settings option \<Rightarrow> message_template \<Rightarrow> campaign_type \<Rightarrow> nat \<Rightarrow> contact list \<Rightarrow> (campaign_result \<times> bool) list" where
  "loop_outcomes e st tmpl t i [] = []"
| "loop_outcomes e st tmpl t i (k # ks) =
     (iter_result e st tmpl t i k, iter_success e st tmpl t i k) # loop_outcomes e st tmpl t (Suc i) ks"

text \<open>The result a \<^verbatim>\<open>process-contact\<close> job pushes, and whether it counts a success.\<close>

definition job_outcome :: "env \<Rightarrow> contact_job \<Rightarrow> campaign_result \<times> bool" where
  "job_outcome e j =
     (\<lparr>contactId = string_of_nat (contactIndex j), contactName = name (job_contact j),
       methods = [method_entry (campaignType j) (attempt_queue e j)],
       overallStatus = (if isl (attempt_queue e j) then OFailed else Success)\<rparr>,
      \<not> isl (attempt_queue e j))"




text \<open>
  The shape of a result: everything but the error texts, which the two paths word
  differently.
\<close>

definition method_shape :: "method_result \<Rightarrow> campaign_type \<times> method_status \<times> string option" where
  "method_shape m = (mr_method m, mr_status m, response m)"

definition result_shape ::
  "campaign_result \<Rightarrow> string \<times> string \<times> overall_status \<times> (campaign_type \<times> method_status \<times> string option) list" where
  "result_shape r = (contactId r, contactName r, overallStatus r, map method_shape (methods r))"

text \<open>
  The voice settings are absent, or hold both values the queue handler insists on. In
  both cases the two paths treat a call alike.
\<close>

definition settings_complete :: "settings option \<Rightarrow> bool" where
  "settings_complete st =
     (case st of None \<Rightarrow> True | Some s \<Rightarrow> dynamicInstruction s \<noteq> [] \<and> apiKey s \<noteq> [])"

section \<open>Example campaigns and environments\<close>

text \<open>
  An environment in which the store and the gateway work and nobody pauses, and the
  campaign of the specification's scenario: type \<^verbatim>\<open>sms\<close>, contacts A and C with a phone
  number, B without one, already set to running by \<^verbatim>\<open>startCampaign\<close>.
\<close>

definition env_reliable :: env where
  "env_reliable =
     \<lparr>sendSMS = (\<lambda>i b n. Inr (Some ''{\"status\":\"queued\"}'')),
      sendEmail = (\<lambda>i s b r h. Inr (Some ''{\"status\":\"queued\"}'')),
      makeOutboundCall = (\<lambda>i p n s. Inr (Some ''{\"status\":\"queued\"}'')),
      findSettings = Inr None,
      findStart = ReadDoc, saveStart = None, findInitial = ReadDoc,
      findReread = (\<lambda>i. ReadDoc), pauseRequested = (\<lambda>i. False),
      saveContact = (\<lambda>i. None), saveFinal = None,
      findRecovery = ReadDoc, saveRecovery = None\<rparr>"

definition contact_A :: contact where
  "contact_A = \<lparr>name = ''A'', phone = Some ''+15550001'', email = None\<rparr>"

definition contact_B :: contact where
  "contact_B = \<lparr>name = ''B'', phone = None, email = None\<rparr>"

definition contact_C :: contact where
  "contact_C = \<lparr>name = ''C'', phone = Some ''+15550003'', email = None\<rparr>"

definition campaign_abc :: campaign where
  "campaign_abc =
     \<lparr>ctype = Sms, status = Running, contacts = [contact_A, contact_B, contact_C],
      messageTemplate = \<lparr>subject = None, body = ''Hello'', isHtml = None\<rparr>,
      results = [], totalContacts = 3, successCount = 0, failureCount = 0\<rparr>"

definition campaign_draft :: campaign where
  "campaign_draft = campaign_abc\<lparr>status := Draft\<rparr>"

definition campaign_empty :: campaign where
  "campaign_empty = campaign_abc\<lparr>status := Draft, contacts := [], totalContacts := 0\<rparr>"

text \<open>
  Campaigns that already hold the result of an earlier run for contact A: one paused with
  two contacts, one running again with a single contact.
\<close>

definition result_A :: campaign_result where
  "result_A =
     \<lparr>contactId = ''0'', contactName = ''A'',
      methods = [\<lparr>mr_method = Sms, mr_status = Sent,
                  response = Some ''{\"status\":\"queued\"}'', error = None\<rparr>],
      overallStatus = Success\<rparr>"

definition campaign_resumed :: campaign where
  "campaign_resumed =
     campaign_abc\<lparr>status := Paused, contacts := [contact_A, contact_C], results := [result_A],
       totalContacts := 2, successCount := 1\<rparr>"

definition campaign_restarted :: campaign where
  "campaign_restarted =
     campaign_abc\<lparr>contacts := [contact_A], results := [result_A], totalContacts := 1,
       successCount := 1\<rparr>"

text \<open>
  Environments with a failing store: every per-contact save throws (and, in
  \<open>env_store_down\<close>, the save of the outer \<^verbatim>\<open>catch\<close> as well); every re-read throws.
\<close>

definition env_save_fails_once :: env where
  "env_save_fails_once = env_reliable\<lparr>saveContact := (\<lambda>i. Some ''store unavailable'')\<rparr>"

definition env_store_down :: env where
  "env_store_down =
     env_reliable\<lparr>saveContact := (\<lambda>i. Some ''store unavailable''),
       saveRecovery := Some ''store unavailable''\<rparr>"

definition env_reread_throws :: env where
  "env_reread_throws = env_reliable\<lparr>findReread := (\<lambda>i. ReadThrows ''connection lost'')\<rparr>"

text \<open>
  A call campaign for a user whose settings document exists with its default (empty)
  voice settings, and a campaign of type \<^verbatim>\<open>all\<close>.
\<close>

definition settings_blank :: settings where
  "settings_blank = \<lparr>dynamicInstruction = [], apiKey = []\<rparr>"

definition env_blank_settings :: env where
  "env_blank_settings = env_reliable\<lparr>findSettings := Inr (Some settings_blank)\<rparr>"

definition campaign_call :: campaign where
  "campaign_call = campaign_abc\<lparr>ctype := Call, contacts := [contact_A], totalContacts := 1\<rparr>"

definition campaign_all :: campaign where
  "campaign_all = campaign_abc\<lparr>ctype := All, contacts := [contact_A], totalContacts := 1\<rparr>"

text \<open>
  A contact with an email address and no phone number, first in a campaign of type
  \<^verbatim>\<open>all\<close>.
\<close>

definition contact_D :: contact where
  "contact_D = \<lparr>name = ''D'', phone = None, email = Some ''d@example.com''\<rparr>"

definition campaign_all_d :: campaign where
  "campaign_all_d =
     campaign_abc\<lparr>ctype := All, contacts := [contact_D, contact_A], totalContacts := 2\<rparr>"

text \<open>
  Environments with one failure each: the initial read finds nothing, the settings read
  throws, the final save throws, the save after the second contact throws.
\<close>

definition env_no_campaign :: env where
  "env_no_campaign = env_reliable\<lparr>findInitial := ReadNull\<rparr>"

definition env_settings_fail :: env where
  "env_settings_fail = env_reliable\<lparr>findSettings := Inl ''settings store unavailable''\<rparr>"

definition env_final_save_fails :: env where
  "env_final_save_fails = env_reliable\<lparr>saveFinal := Some ''store unavailable''\<rparr>"

definition env_second_save_fails :: env where
  "env_second_save_fails =
     env_reliable\<lparr>saveContact := (\<lambda>i. if i = 1 then Some ''store unavailable'' else None)\<rparr>"

section \<open>Lemmas\<close>

lemmas run_defs = processCampaignDirectly_def try_block_def process_contact_def
  attempt_contact_def record_result_def save_progress_def pre_save_def mark_completed_def
  pauseCampaign_def methodsToExecute_def attempt_direct_def count_contact_def overall_of_def
  method_entry_def recover_def Let_def

lemmas queue_defs = queue_path_def start_campaign_job_def process_contact_job_def
  attempt_queue_def job_push_def job_count_def

lemmas example_defs = env_reliable_def campaign_abc_def contact_A_def contact_B_def contact_C_def

lemmas example_defs2 = campaign_draft_def campaign_empty_def result_A_def campaign_resumed_def
  campaign_restarted_def env_store_down_def env_save_fails_once_def env_reread_throws_def

lemmas example_defs3 = contact_D_def campaign_all_d_def env_no_campaign_def
  env_settings_fail_def env_final_save_fails_def env_second_save_fails_def

lemma env_reliable_simps:
  "findInitial env_reliable = ReadDoc" "saveStart env_reliable = None"
  "findStart env_reliable = ReadDoc"
  "\<forall>i. findReread env_reliable i = ReadDoc" "\<forall>i. saveContact env_reliable i = None"
  "saveFinal env_reliable = None" "\<forall>i. \<not> pauseRequested env_reliable i"
  "findSettings env_reliable = Inr None"
  "findRecovery env_reliable = ReadDoc" "saveRecovery env_reliable = None"
  by (simp_all add: env_reliable_def)

subsection \<open>The method loop\<close>

lemma execute_methods_acc:
  "execute_methods e st tmpl i k ms (mrs, s, f) =
     (mrs @ map (\<lambda>m. method_entry m (attempt_direct e st tmpl i k m)) ms,
      s + length (filter (\<lambda>m. \<not> isl (attempt_direct e st tmpl i k m)) ms),
      f + length (filter (\<lambda>m. isl (attempt_direct e st tmpl i k m)) ms))"
  by (induction ms arbitrary: mrs s f) (auto split: sum.splits)

lemma mr_status_method_entry: "(mr_status (method_entry m a) = Sent) = (\<not> isl a)"
  by (cases a) (simp_all add: method_entry_def)

lemma mr_method_method_entry: "mr_method (method_entry m a) = m"
  by (cases a) (simp_all add: method_entry_def)

lemma methodsToExecute_nonempty: "methodsToExecute t \<noteq> []"
  by (simp add: methodsToExecute_def)

lemma filter_length_pos: "(0 < length (filter P xs)) = list_ex P xs"
  by (induction xs) auto

lemma filter_length_all: "(length (filter P xs) = length xs) = list_all P xs"
proof -
  have "length (filter P xs) + length (filter (\<lambda>x. \<not> P x) xs) = length xs"
    by (rule sum_length_filter_compl)
  then have "(length (filter P xs) = length xs) = (filter (\<lambda>x. \<not> P x) xs = [])"
    by auto
  then show ?thesis
    by (simp add: filter_empty_conv list_all_iff)
qed

lemma count_contact_cases:
  "ms \<noteq> [] \<Longrightarrow>
   count_contact (length (filter P ms)) (length ms) c =
     (if list_ex P ms then c\<lparr>successCount := successCount c + 1\<rparr>
      else c\<lparr>failureCount := failureCount c + 1\<rparr>)"
  unfolding count_contact_def
  using filter_length_pos [of P ms] filter_length_all [of P ms]
  by (auto simp: list_all_iff list_ex_iff)

lemma attempt_contact_eq:
  "attempt_contact e st i k (mem, db) =
     record_result e i k (attempted e st (messageTemplate mem) (ctype mem) i k)
       ((if succeeded e st (messageTemplate mem) (ctype mem) i k
         then mem\<lparr>successCount := successCount mem + 1\<rparr>
         else mem\<lparr>failureCount := failureCount mem + 1\<rparr>), db)"
  unfolding attempt_contact_def attempted_def succeeded_def
  by (simp add: Let_def execute_methods_acc count_contact_cases methodsToExecute_nonempty)

lemma overall_of_attempted:
  "overall_of (attempted e st tmpl t i k) = OFailed \<longleftrightarrow> \<not> succeeded e st tmpl t i k"
proof -
  let ?ok = "\<lambda>m. \<not> isl (attempt_direct e st tmpl i k m)"
  have a: "list_all (\<lambda>m. mr_status m = Sent) (attempted e st tmpl t i k)
      = list_all ?ok (methodsToExecute t)"
    by (simp add: attempted_def list_all_iff mr_status_method_entry)
  have b: "list_ex (\<lambda>m. mr_status m = Sent) (attempted e st tmpl t i k)
      = list_ex ?ok (methodsToExecute t)"
    by (simp add: attempted_def list_ex_iff mr_status_method_entry)
  have c: "list_all ?ok (methodsToExecute t) \<Longrightarrow> list_ex ?ok (methodsToExecute t)"
    by (simp add: methodsToExecute_def split: if_splits)
  show ?thesis
    using c by (auto simp: overall_of_def a b succeeded_def)
qed

text \<open>
  On the normal path the stored status and the counters agree: the result is \<^verbatim>\<open>failed\<close>
  exactly when \<^verbatim>\<open>failureCount\<close> is the counter incremented.
\<close>

lemma normal_path_status_and_counts:
  assumes "saveContact e i = None"
  shows "\<exists>mem' db' r. attempt_contact e st i k (mem, db) = Continue (mem', db')
     \<and> results mem' = results mem @ [r]
     \<and> map mr_method (methods r) = methodsToExecute (ctype mem)
     \<and> overallStatus r = overall_of (methods r)
     \<and> successCount mem' = successCount mem + (if overallStatus r = OFailed then 0 else 1)
     \<and> failureCount mem' = failureCount mem + (if overallStatus r = OFailed then 1 else 0)"
  using assms overall_of_attempted [of e st "messageTemplate mem" "ctype mem" i k]
  by (simp add: attempt_contact_eq record_result_def save_progress_def pre_save_def Let_def
        attempted_def comp_def mr_method_method_entry del: string_of_nat.simps)




subsection \<open>The contact loop without a pause and with a working store\<close>

lemma process_contact_unpaused:
  assumes "\<not> pauseRequested e i" and "status db \<noteq> Paused" and "saveContact e i = None"
  shows "process_contact e st i k (mem, db) =
     Continue (save_progress
       ((if iter_success e st (messageTemplate mem) (ctype mem) i k
         then mem\<lparr>successCount := successCount mem + 1\<rparr>
         else mem\<lparr>failureCount := failureCount mem + 1\<rparr>)
          \<lparr>results := results mem @ [iter_result e st (messageTemplate mem) (ctype mem) i k]\<rparr>) db)"
  using assms
  by (cases "findReread e i")
     (simp_all add: process_contact_def attempt_contact_eq record_result_def iter_success_def
        iter_result_def iter_methods_def Let_def)

lemma loop_natural:
  assumes "\<forall>j. saveContact e j = None" and "\<forall>j. \<not> pauseRequested e j"
    and "status db \<noteq> Paused"
  shows "\<exists>mem' db'. contact_loop e st i ks (mem, db) = Continue (mem', db')
     \<and> results mem' = results mem @ map fst (loop_outcomes e st (messageTemplate mem) (ctype mem) i ks)
     \<and> successCount mem' = successCount mem
          + length (filter snd (loop_outcomes e st (messageTemplate mem) (ctype mem) i ks))
     \<and> failureCount mem' = failureCount mem
          + length (filter (\<lambda>x. \<not> snd x) (loop_outcomes e st (messageTemplate mem) (ctype mem) i ks))
     \<and> contacts mem' = contacts mem \<and> ctype mem' = ctype mem
     \<and> messageTemplate mem' = messageTemplate mem
     \<and> status db' = status db \<and> contacts db' = contacts db \<and> ctype db' = ctype db
     \<and> messageTemplate db' = messageTemplate db"
  using assms(3)
proof (induction ks arbitrary: i mem db)
  case Nil
  then show ?case by simp
next
  case (Cons k ks)
  let ?m1 = "(if iter_success e st (messageTemplate mem) (ctype mem) i k
         then mem\<lparr>successCount := successCount mem + 1\<rparr>
         else mem\<lparr>failureCount := failureCount mem + 1\<rparr>)
          \<lparr>results := results mem @ [iter_result e st (messageTemplate mem) (ctype mem) i k]\<rparr>"
  obtain m2 d2 where s2: "save_progress ?m1 db = (m2, d2)"
    by (cases "save_progress ?m1 db")
  have step: "process_contact e st i k (mem, db) = Continue (m2, d2)"
    using process_contact_unpaused [where e=e and i=i and db=db and k=k and st=st and mem=mem]
      assms(1,2) Cons.prems s2 by simp
  have m2: "m2 = pre_save ?m1" and d2: "status d2 = status db" "contacts d2 = contacts db"
    "ctype d2 = ctype db" "messageTemplate d2 = messageTemplate db"
    using s2 by (auto simp: save_progress_def Let_def)
  have f2: "results m2 = results mem @ [iter_result e st (messageTemplate mem) (ctype mem) i k]"
    "successCount m2 = successCount mem + (if iter_success e st (messageTemplate mem) (ctype mem) i k then 1 else 0)"
    "failureCount m2 = failureCount mem + (if iter_success e st (messageTemplate mem) (ctype mem) i k then 0 else 1)"
    "contacts m2 = contacts mem" "ctype m2 = ctype mem" "messageTemplate m2 = messageTemplate mem"
    unfolding m2 by (simp_all add: pre_save_def)
  from d2 Cons.prems have "status d2 \<noteq> Paused" by simp
  from Cons.IH [OF this, of "Suc i" m2] obtain mem' db' where
    ih: "contact_loop e st (Suc i) ks (m2, d2) = Continue (mem', db')"
     "results mem' = results m2 @ map fst (loop_outcomes e st (messageTemplate m2) (ctype m2) (Suc i) ks)"
     "successCount mem' = successCount m2
          + length (filter snd (loop_outcomes e st (messageTemplate m2) (ctype m2) (Suc i) ks))"
     "failureCount mem' = failureCount m2
          + length (filter (\<lambda>x. \<not> snd x) (loop_outcomes e st (messageTemplate m2) (ctype m2) (Suc i) ks))"
     "contacts mem' = contacts m2" "ctype mem' = ctype m2"
     "messageTemplate mem' = messageTemplate m2"
     "status db' = status d2" "contacts db' = contacts d2" "ctype db' = ctype d2"
     "messageTemplate db' = messageTemplate d2"
    by blast
  show ?case
    using step ih f2 d2 by simp
qed

lemma loop_outcomes_length: "length (loop_outcomes e st tmpl t i ks) = length ks"
  by (induction ks arbitrary: i) simp_all

lemma loop_outcomes_ids:
  "map (\<lambda>x. contactId (fst x)) (loop_outcomes e st tmpl t i ks) = map string_of_nat [i..<i + length ks]"
proof (induction ks arbitrary: i)
  case Nil
  then show ?case by simp
next
  case (Cons k ks)
  have "[i..<i + length (k # ks)] = i # [Suc i..<Suc i + length ks]"
    by (simp add: upt_rec)
  with Cons show ?case by (simp add: iter_result_def del: string_of_nat.simps)
qed

lemma loop_outcomes_names:
  "map (\<lambda>x. contactName (fst x)) (loop_outcomes e st tmpl t i ks) = map name ks"
  by (induction ks arbitrary: i) (simp_all add: iter_result_def)

lemma direct_natural:
  assumes "findInitial e = ReadDoc" and "findSettings e = Inr st"
    and "\<forall>j. saveContact e j = None" and "saveFinal e = None"
    and "\<forall>j. \<not> pauseRequested e j" and "status db \<noteq> Paused"
  shows "\<exists>d. processCampaignDirectly e db = (Resolved, d) \<and> status d = Completed
     \<and> results d = results db @ map fst (loop_outcomes e st (messageTemplate db) (ctype db) 0 (contacts db))
     \<and> successCount d = successCount db
          + length (filter snd (loop_outcomes e st (messageTemplate db) (ctype db) 0 (contacts db)))
     \<and> failureCount d = failureCount db
          + length (filter (\<lambda>x. \<not> snd x) (loop_outcomes e st (messageTemplate db) (ctype db) 0 (contacts db)))
     \<and> totalContacts d = length (contacts db) \<and> contacts d = contacts db"
proof -
  from loop_natural [OF assms(3) assms(5) assms(6), of st 0 "contacts db" db]
  obtain mem' db' where
    l: "contact_loop e st 0 (contacts db) (db, db) = Continue (mem', db')"
     "results mem' = results db @ map fst (loop_outcomes e st (messageTemplate db) (ctype db) 0 (contacts db))"
     "successCount mem' = successCount db
          + length (filter snd (loop_outcomes e st (messageTemplate db) (ctype db) 0 (contacts db)))"
     "failureCount mem' = failureCount db
          + length (filter (\<lambda>x. \<not> snd x) (loop_outcomes e st (messageTemplate db) (ctype db) 0 (contacts db)))"
     "contacts mem' = contacts db" "contacts db' = contacts db"
    by blast
  then show ?thesis
    using assms(1,2,4)
    by (simp add: processCampaignDirectly_def try_block_def mark_completed_def
          save_progress_def pre_save_def Let_def)
qed

subsection \<open>The contact loop in any environment\<close>

lemma record_result_results:
  "\<exists>r. (case record_result e i k mrs (mem, db) of
      Continue s \<Rightarrow> results (fst s) = results mem @ [r] \<and> results (snd s) = results (fst s)
        \<and> contacts (fst s) = contacts mem  \<and> contacts (snd s) = contacts db
    | Break s \<Rightarrow> False
    | Throw err s \<Rightarrow> snd s = db)"
  by (cases "saveContact e i")
     (simp_all add: record_result_def save_progress_def pre_save_def Let_def
        del: string_of_nat.simps)

lemma count_contact_fields:
  "results (count_contact a b c) = results c" "contacts (count_contact a b c) = contacts c"
  by (simp_all add: count_contact_def)

lemma attempt_contact_results:
  "\<exists>r. (case attempt_contact e st i k (mem, db) of
      Continue s \<Rightarrow> results (fst s) = results mem @ [r] \<and> results (snd s) = results (fst s)
        \<and> contacts (fst s) = contacts mem \<and> contacts (snd s) = contacts db
    | Break s \<Rightarrow> False
    | Throw err s \<Rightarrow> snd s = db)"
proof -
  obtain mrs a b where x: "execute_methods e st (messageTemplate mem) i k
      (methodsToExecute (ctype mem)) ([], 0, 0) = (mrs, a, b)"
    by (cases "execute_methods e st (messageTemplate mem) i k
      (methodsToExecute (ctype mem)) ([], 0, 0)")
  show ?thesis
    using record_result_results [where e=e and i=i and k=k and mrs=mrs
        and mem="count_contact a (length (methodsToExecute (ctype mem))) mem" and db=db,
        unfolded count_contact_fields] x
    by (simp add: attempt_contact_def Let_def)
qed

lemma pause_store_fields:
  "results (snd (pauseCampaign db)) = results db"
  "contacts (snd (pauseCampaign db)) = contacts db"
  by (simp_all add: pauseCampaign_def pre_save_def)

lemma process_contact_results:
  "\<exists>r. (case process_contact e st i k (mem, db) of
      Continue s \<Rightarrow> results (fst s) = results mem @ [r] \<and> results (snd s) = results (fst s)
        \<and> contacts (fst s) = contacts mem \<and> contacts (snd s) = contacts db
    | Break s \<Rightarrow> fst s = mem \<and> results (snd s) = results db \<and> contacts (snd s) = contacts db
    | Throw err s \<Rightarrow> results (snd s) = results db \<and> contacts (snd s) = contacts db)"
proof -
  let ?db = "if pauseRequested e i then snd (pauseCampaign db) else db"
  have f: "results ?db = results db" "contacts ?db = contacts db"
    by (simp_all add: pause_store_fields)
  show ?thesis
  proof (cases "findReread e i")
    case (ReadThrows err)
    from record_result_results [where e=e and i=i and k=k and mrs="[]"
        and mem="mem\<lparr>failureCount := failureCount mem + 1\<rparr>" and db="?db"]
    obtain r where "case record_result e i k [] (mem\<lparr>failureCount := failureCount mem + 1\<rparr>, ?db) of
      Continue s \<Rightarrow> results (fst s) = results (mem\<lparr>failureCount := failureCount mem + 1\<rparr>) @ [r]
        \<and> results (snd s) = results (fst s)
        \<and> contacts (fst s) = contacts (mem\<lparr>failureCount := failureCount mem + 1\<rparr>)
        \<and> contacts (snd s) = contacts ?db
    | Break s \<Rightarrow> False
    | Throw err s \<Rightarrow> snd s = ?db" ..
    with ReadThrows f show ?thesis
      by (intro exI [of _ r]) (auto simp: process_contact_def Let_def split: loop_exit.splits)
  next
    case ReadNull
    from attempt_contact_results [where e=e and st=st and i=i and k=k and mem=mem and db="?db"]
    obtain r where "case attempt_contact e st i k (mem, ?db) of
      Continue s \<Rightarrow> results (fst s) = results mem @ [r] \<and> results (snd s) = results (fst s)
        \<and> contacts (fst s) = contacts mem \<and> contacts (snd s) = contacts ?db
    | Break s \<Rightarrow> False
    | Throw err s \<Rightarrow> snd s = ?db" ..
    with ReadNull f show ?thesis
      by (intro exI [of _ r]) (auto simp: process_contact_def Let_def split: loop_exit.splits)
  next
    case ReadDoc
    from attempt_contact_results [where e=e and st=st and i=i and k=k and mem=mem and db="?db"]
    obtain r where "case attempt_contact e st i k (mem, ?db) of
      Continue s \<Rightarrow> results (fst s) = results mem @ [r] \<and> results (snd s) = results (fst s)
        \<and> contacts (fst s) = contacts mem \<and> contacts (snd s) = contacts ?db
    | Break s \<Rightarrow> False
    | Throw err s \<Rightarrow> snd s = ?db" ..
    with ReadDoc f show ?thesis
      by (intro exI [of _ r]) (auto simp: process_contact_def Let_def split: loop_exit.splits)
  qed
qed

lemma loop_results_grow:
  assumes "results db = results mem"
  shows "\<exists>ys. results (snd (exit_state (contact_loop e st i ks (mem, db)))) = results db @ ys
     \<and> length ys \<le> length ks
     \<and> contacts (snd (exit_state (contact_loop e st i ks (mem, db)))) = contacts db
     \<and> (is_throw (contact_loop e st i ks (mem, db))
        \<or> results (fst (exit_state (contact_loop e st i ks (mem, db))))
            = results (snd (exit_state (contact_loop e st i ks (mem, db))))
         \<and> contacts (fst (exit_state (contact_loop e st i ks (mem, db)))) = contacts mem)"
  using assms
proof (induction ks arbitrary: i mem db)
  case Nil
  then show ?case by (simp add: exit_state_def)
next
  case (Cons k ks)
  from process_contact_results [where e=e and st=st and i=i and k=k and mem=mem and db=db] obtain r where
    r: "case process_contact e st i k (mem, db) of
      Continue s \<Rightarrow> results (fst s) = results mem @ [r] \<and> results (snd s) = results (fst s)
        \<and> contacts (fst s) = contacts mem \<and> contacts (snd s) = contacts db
    | Break s \<Rightarrow> fst s = mem \<and> results (snd s) = results db \<and> contacts (snd s) = contacts db
    | Throw err s \<Rightarrow> results (snd s) = results db \<and> contacts (snd s) = contacts db" ..
  show ?case
  proof (cases "process_contact e st i k (mem, db)")
    case (Continue s)
    obtain m2 d2 where s: "s = (m2, d2)" by (cases s)
    from r Continue s have f: "results m2 = results mem @ [r]" "results d2 = results m2"
      "contacts m2 = contacts mem" "contacts d2 = contacts db"
      by simp_all
    from Cons.IH [OF f(2), where i="Suc i"] obtain ys where
      ih: "results (snd (exit_state (contact_loop e st (Suc i) ks (m2, d2)))) = results d2 @ ys"
        "length ys \<le> length ks"
        "contacts (snd (exit_state (contact_loop e st (Suc i) ks (m2, d2)))) = contacts d2"
        "is_throw (contact_loop e st (Suc i) ks (m2, d2))
        \<or> results (fst (exit_state (contact_loop e st (Suc i) ks (m2, d2))))
            = results (snd (exit_state (contact_loop e st (Suc i) ks (m2, d2))))
         \<and> contacts (fst (exit_state (contact_loop e st (Suc i) ks (m2, d2)))) = contacts m2"
      by blast
    have loop: "contact_loop e st i (k # ks) (mem, db) = contact_loop e st (Suc i) ks (m2, d2)"
      using Continue s by simp
    show ?thesis
      unfolding loop
      using ih f Cons.prems by (intro exI [of _ "r # ys"]) auto
  next
    case (Break s)
    with r Cons.prems show ?thesis
      by (intro exI [of _ "[]"]) (simp add: exit_state_def is_throw_def)
  next
    case (Throw err s)
    with r Cons.prems show ?thesis
      by (intro exI [of _ "[]"]) (simp add: exit_state_def is_throw_def)
  qed
qed

lemma run_results_grow:
  "\<exists>ys. results (snd (processCampaignDirectly e db)) = results db @ ys
     \<and> length ys \<le> length (contacts db)
     \<and> contacts (snd (processCampaignDirectly e db)) = contacts db"
proof -
  have rec: "results (snd (recover e d)) = results d \<and> contacts (snd (recover e d)) = contacts d" for d
    by (simp add: recover_def pre_save_def split: read_result.splits option.splits)
  show ?thesis
  proof (cases "findInitial e")
    case (ReadThrows err)
    then show ?thesis using rec [of db]
      by (simp add: processCampaignDirectly_def try_block_def)
  next
    case ReadNull
    then show ?thesis using rec [of db]
      by (simp add: processCampaignDirectly_def try_block_def)
  next
    case ReadDoc
    show ?thesis
    proof (cases "findSettings e")
      case (Inl err)
      with ReadDoc show ?thesis using rec [of db]
        by (simp add: processCampaignDirectly_def try_block_def)
    next
      case (Inr st)
      let ?x = "contact_loop e st 0 (contacts db) (db, db)"
      from loop_results_grow [where db=db and mem=db and e=e and st=st and i=0 and ks="contacts db"] obtain ys where
        ys: "results (snd (exit_state ?x)) = results db @ ys" "length ys \<le> length (contacts db)"
          "contacts (snd (exit_state ?x)) = contacts db"
          "is_throw ?x \<or> results (fst (exit_state ?x)) = results (snd (exit_state ?x))
             \<and> contacts (fst (exit_state ?x)) = contacts db"
        by auto
      have "results (snd (processCampaignDirectly e db)) = results db @ ys
        \<and> contacts (snd (processCampaignDirectly e db)) = contacts db"
      proof (cases ?x)
        case (Continue s)
        with ys ReadDoc Inr rec [of "snd s"] show ?thesis
          by (cases "saveFinal e")
             (simp_all add: processCampaignDirectly_def try_block_def mark_completed_def
                save_progress_def pre_save_def exit_state_def is_throw_def Let_def)
      next
        case (Break s)
        with ys ReadDoc Inr rec [of "snd s"] show ?thesis
          by (cases "saveFinal e")
             (simp_all add: processCampaignDirectly_def try_block_def mark_completed_def
                save_progress_def pre_save_def exit_state_def is_throw_def Let_def)
      next
        case (Throw err s)
        with ys ReadDoc Inr rec [of "snd s"] show ?thesis
          by (simp add: processCampaignDirectly_def try_block_def exit_state_def)
      qed
      with ys(2) show ?thesis by blast
    qed
  qed
qed

lemma record_result_total:
  "totalContacts db = length (contacts db) \<Longrightarrow> contacts mem = contacts db \<Longrightarrow>
   totalContacts (snd (exit_state (record_result e i k mrs (mem, db)))) = length (contacts db)"
  by (cases "saveContact e i")
     (simp_all add: record_result_def save_progress_def pre_save_def exit_state_def Let_def
        del: string_of_nat.simps)

lemma process_contact_total:
  assumes "totalContacts db = length (contacts db)" and "contacts mem = contacts db"
  shows "totalContacts (snd (exit_state (process_contact e st i k (mem, db))))
     = length (contacts db)"
proof -
  define d where "d = (if pauseRequested e i then snd (pauseCampaign db) else db)"
  have f: "totalContacts d = length (contacts d)" "contacts d = contacts db"
    using assms(1) by (simp_all add: d_def pauseCampaign_def pre_save_def)
  have pc: "process_contact e st i k (mem, db) =
     (case findReread e i of
        ReadThrows err \<Rightarrow>
          record_result e i k [] (mem\<lparr>failureCount := failureCount mem + 1\<rparr>, d)
      | ReadNull \<Rightarrow> attempt_contact e st i k (mem, d)
      | ReadDoc \<Rightarrow> if status d = Paused then Break (mem, d) else attempt_contact e st i k (mem, d))"
    by (cases "findReread e i") (simp_all add: process_contact_def d_def Let_def)
  have a: "totalContacts (snd (exit_state (record_result e i k mrs (m, d)))) = length (contacts db)"
    if "contacts m = contacts db" for m mrs
    using record_result_total [of d m e i k mrs] f that by simp
  have b: "totalContacts (snd (exit_state (attempt_contact e st i k (mem, d)))) = length (contacts db)"
    unfolding attempt_contact_eq using assms(2) by (intro a) simp
  have c: "totalContacts (snd (exit_state (record_result e i k []
      (mem\<lparr>failureCount := failureCount mem + 1\<rparr>, d)))) = length (contacts db)"
    using assms(2) by (intro a) simp
  show ?thesis
    unfolding pc using b c f
    by (cases "findReread e i") (simp_all add: exit_state_def)
qed

lemma loop_total:
  assumes "totalContacts db = length (contacts db)" and "contacts mem = contacts db"
  shows "totalContacts (snd (exit_state (contact_loop e st i ks (mem, db))))
     = length (contacts db)"
  using assms
proof (induction ks arbitrary: i mem db)
  case Nil
  then show ?case by (simp add: exit_state_def)
next
  case (Cons k ks)
  note t = process_contact_total [OF Cons.prems, of e st i k]
  from process_contact_results [where e=e and st=st and i=i and k=k and mem=mem and db=db]
  obtain r where
    r: "case process_contact e st i k (mem, db) of
      Continue s \<Rightarrow> results (fst s) = results mem @ [r] \<and> results (snd s) = results (fst s)
        \<and> contacts (fst s) = contacts mem \<and> contacts (snd s) = contacts db
    | Break s \<Rightarrow> fst s = mem \<and> results (snd s) = results db \<and> contacts (snd s) = contacts db
    | Throw err s \<Rightarrow> results (snd s) = results db \<and> contacts (snd s) = contacts db" ..
  show ?case
  proof (cases "process_contact e st i k (mem, db)")
    case (Continue s)
    obtain m2 d2 where s: "s = (m2, d2)" by (cases s)
    from r Continue s t Cons.prems have
      "totalContacts d2 = length (contacts d2)" "contacts m2 = contacts d2" "contacts d2 = contacts db"
      by (simp_all add: exit_state_def)
    from Cons.IH [OF this(1,2), of "Suc i"] this(3) Continue s show ?thesis by simp
  next
    case (Break s)
    with t show ?thesis by (simp add: exit_state_def)
  next
    case (Throw err s)
    with t show ?thesis by (simp add: exit_state_def)
  qed
qed

lemma run_total:
  assumes "totalContacts db = length (contacts db)"
  shows "totalContacts (snd (processCampaignDirectly e db)) = length (contacts db)"
proof -
  have rec: "totalContacts (snd (recover e d)) = length (contacts db)"
    if "totalContacts d = length (contacts db)" "contacts d = contacts db" for d
    using that by (simp add: recover_def pre_save_def split: read_result.splits option.splits)
  show ?thesis
  proof (cases "findInitial e")
    case (ReadThrows err)
    then show ?thesis using rec [of db] assms
      by (simp add: processCampaignDirectly_def try_block_def)
  next
    case ReadNull
    then show ?thesis using rec [of db] assms
      by (simp add: processCampaignDirectly_def try_block_def)
  next
    case ReadDoc
    show ?thesis
    proof (cases "findSettings e")
      case (Inl err)
      with ReadDoc show ?thesis using rec [of db] assms
        by (simp add: processCampaignDirectly_def try_block_def)
    next
      case (Inr st)
      let ?x = "contact_loop e st 0 (contacts db) (db, db)"
      from loop_results_grow [where db=db and mem=db and e=e and st=st and i=0 and ks="contacts db"]
      have c: "contacts (snd (exit_state ?x)) = contacts db"
        "is_throw ?x \<or> contacts (fst (exit_state ?x)) = contacts db"
        by auto
      have t: "totalContacts (snd (exit_state ?x)) = length (contacts db)"
        using loop_total [OF assms, of db e st 0 "contacts db"] by simp
      show ?thesis
      proof (cases ?x)
        case (Continue s)
        with c t ReadDoc Inr rec [of "snd s"] show ?thesis
          by (cases "saveFinal e")
             (simp_all add: processCampaignDirectly_def try_block_def mark_completed_def
                save_progress_def pre_save_def exit_state_def is_throw_def Let_def)
      next
        case (Break s)
        with c t ReadDoc Inr rec [of "snd s"] show ?thesis
          by (cases "saveFinal e")
             (simp_all add: processCampaignDirectly_def try_block_def mark_completed_def
                save_progress_def pre_save_def exit_state_def is_throw_def Let_def)
      next
        case (Throw err s)
        with c t ReadDoc Inr rec [of "snd s"] show ?thesis
          by (simp add: processCampaignDirectly_def try_block_def exit_state_def)
      qed
    qed
  qed
qed

lemma try_block_done: "try_block e db = Done d \<Longrightarrow> status d = Completed"
  by (auto simp: try_block_def mark_completed_def
        split: read_result.splits sum.splits loop_exit.splits option.splits)

text \<open>
  The exceptions that leave the outer \<^verbatim>\<open>try\<close> block: a failing or empty initial read,
  a failing settings read, a failing save. A re-read that throws inside the loop is not
  among them: the per-contact \<^verbatim>\<open>catch\<close> takes it.
\<close>

lemma record_result_throw:
  "record_result e i k mrs s = Throw err s' \<Longrightarrow> saveContact e i = Some err"
  by (auto simp: record_result_def Let_def split: option.splits)

lemma process_contact_throw:
  assumes "process_contact e st i k s = Throw err s'"
  shows "saveContact e i = Some err"
proof -
  obtain mem db where s: "s = (mem, db)" by (cases s)
  define d where "d = (if pauseRequested e i then snd (pauseCampaign db) else db)"
  have pc: "process_contact e st i k (mem, db) =
     (case findReread e i of
        ReadThrows err \<Rightarrow>
          record_result e i k [] (mem\<lparr>failureCount := failureCount mem + 1\<rparr>, d)
      | ReadNull \<Rightarrow> attempt_contact e st i k (mem, d)
      | ReadDoc \<Rightarrow> if status d = Paused then Break (mem, d) else attempt_contact e st i k (mem, d))"
    by (cases "findReread e i") (simp_all add: process_contact_def d_def Let_def)
  show ?thesis
    using assms unfolding s pc attempt_contact_eq
    by (cases "findReread e i") (auto dest: record_result_throw split: if_splits)
qed

lemma contact_loop_throw:
  "contact_loop e st i ks s = Throw err s' \<Longrightarrow> \<exists>j. saveContact e j = Some err"
proof (induction ks arbitrary: i s)
  case Nil
  then show ?case by simp
next
  case (Cons k ks)
  show ?case
  proof (cases "process_contact e st i k s")
    case (Continue s2)
    with Cons.prems have "contact_loop e st (Suc i) ks s2 = Throw err s'" by simp
    then show ?thesis by (rule Cons.IH)
  next
    case (Break s2)
    with Cons.prems show ?thesis by simp
  next
    case (Throw err2 s2)
    with Cons.prems have "process_contact e st i k s = Throw err s'" by simp
    then show ?thesis by (blast dest: process_contact_throw)
  qed
qed

lemma try_block_thrown:
  assumes "try_block e db = Thrown err d"
  shows "findInitial e = ReadThrows err \<or> findInitial e = ReadNull \<or> findSettings e = Inl err
     \<or> (\<exists>j. saveContact e j = Some err) \<or> saveFinal e = Some err"
proof (cases "findInitial e")
  case (ReadThrows x)
  with assms show ?thesis by (simp add: try_block_def)
next
  case ReadNull
  then show ?thesis by simp
next
  case ReadDoc
  show ?thesis
  proof (cases "findSettings e")
    case (Inl x)
    with assms ReadDoc show ?thesis by (simp add: try_block_def)
  next
    case (Inr st)
    show ?thesis
    proof (cases "contact_loop e st 0 (contacts db) (db, db)")
      case (Continue s)
      with assms ReadDoc Inr show ?thesis
        by (auto simp: try_block_def mark_completed_def split: option.splits)
    next
      case (Break s)
      with assms ReadDoc Inr show ?thesis
        by (auto simp: try_block_def mark_completed_def split: option.splits)
    next
      case (Throw x s)
      with assms ReadDoc Inr have "contact_loop e st 0 (contacts db) (db, db) = Throw err s"
        by (simp add: try_block_def)
      then show ?thesis by (blast dest: contact_loop_throw)
    qed
  qed
qed

text \<open>
  Conversely, each of these failures does leave the block: a save that fails at contact
  \<open>j\<close>, reached without a pause, throws out of the loop with the results of the \<open>j\<close>
  contacts before it persisted; a failing final save throws whatever the loop did.
\<close>

lemma process_contact_save_fails:
  assumes "\<not> pauseRequested e i" and "status db \<noteq> Paused" and "saveContact e i = Some err"
  shows "\<exists>m'. process_contact e st i k (mem, db) = Throw err (m', db)"
  using assms
  by (cases "findReread e i")
     (simp_all add: process_contact_def attempt_contact_eq record_result_def Let_def
        del: string_of_nat.simps)

lemma loop_save_fails:
  assumes "saveContact e (i + length ks1) = Some err"
    and "\<forall>x. i \<le> x \<and> x < i + length ks1 \<longrightarrow> saveContact e x = None"
    and "\<forall>x. i \<le> x \<and> x \<le> i + length ks1 \<longrightarrow> \<not> pauseRequested e x"
    and "status db \<noteq> Paused" and "results db = results mem"
  shows "\<exists>m' d' rs. contact_loop e st i (ks1 @ k # ks2) (mem, db) = Throw err (m', d')
     \<and> results d' = results db @ rs \<and> length rs = length ks1 \<and> status d' = status db
     \<and> contacts d' = contacts db"
  using assms
proof (induction ks1 arbitrary: i mem db)
  case Nil
  from process_contact_save_fails [of e i db err st k mem] Nil.prems
  obtain m' where "process_contact e st i k (mem, db) = Throw err (m', db)" by auto
  then show ?case by simp
next
  case (Cons k1 ks1)
  let ?m1 = "(if iter_success e st (messageTemplate mem) (ctype mem) i k1
         then mem\<lparr>successCount := successCount mem + 1\<rparr>
         else mem\<lparr>failureCount := failureCount mem + 1\<rparr>)
          \<lparr>results := results mem @ [iter_result e st (messageTemplate mem) (ctype mem) i k1]\<rparr>"
  obtain m2 d2 where s2: "save_progress ?m1 db = (m2, d2)"
    by (cases "save_progress ?m1 db")
  have h: "\<not> pauseRequested e i" "saveContact e i = None"
    using Cons.prems(2,3) by simp_all
  have step: "process_contact e st i k1 (mem, db) = Continue (m2, d2)"
    using process_contact_unpaused [where e=e and i=i and db=db and k=k1 and st=st and mem=mem]
      h Cons.prems(4) s2 by simp
  have f: "results d2 = results db @ [iter_result e st (messageTemplate mem) (ctype mem) i k1]"
    "results d2 = results m2" "status d2 = status db" "contacts d2 = contacts db"
    using s2 Cons.prems(5) by (auto simp: save_progress_def pre_save_def Let_def)
  have p: "saveContact e (Suc i + length ks1) = Some err"
    "\<forall>x. Suc i \<le> x \<and> x < Suc i + length ks1 \<longrightarrow> saveContact e x = None"
    "\<forall>x. Suc i \<le> x \<and> x \<le> Suc i + length ks1 \<longrightarrow> \<not> pauseRequested e x"
    "status d2 \<noteq> Paused"
    using Cons.prems f(3) by simp_all
  from Cons.IH [OF p f(2)] obtain m' d' rs where
    ih: "contact_loop e st (Suc i) (ks1 @ k # ks2) (m2, d2) = Throw err (m', d')"
      "results d' = results d2 @ rs" "length rs = length ks1" "status d' = status d2"
      "contacts d' = contacts d2"
    by blast
  show ?case
    using step ih f
    by (intro exI [of _ m'] exI [of _ d']
          exI [of _ "iter_result e st (messageTemplate mem) (ctype mem) i k1 # rs"]) simp
qed

lemma contact_save_failure_pauses:
  assumes "findInitial e = ReadDoc" and "findSettings e = Inr st"
    and "j < length (contacts db)" and "saveContact e j = Some err"
    and "\<forall>i<j. saveContact e i = None" and "\<forall>i\<le>j. \<not> pauseRequested e i"
    and "status db \<noteq> Paused"
  shows "\<exists>d rs. try_block e db = Thrown err d \<and> results d = results db @ rs \<and> length rs = j
     \<and> contacts d = contacts db"
proof -
  let ?ks1 = "take j (contacts db)" and ?k = "contacts db ! j"
  let ?ks2 = "drop (Suc j) (contacts db)"
  have cs: "contacts db = ?ks1 @ ?k # ?ks2"
    using assms(3) by (simp add: id_take_nth_drop)
  have len: "length ?ks1 = j" using assms(3) by simp
  from loop_save_fails [of e 0 ?ks1 err db db st ?k ?ks2] assms(4-7) len
  obtain m' d' rs where
    "contact_loop e st 0 (?ks1 @ ?k # ?ks2) (db, db) = Throw err (m', d')"
    "results d' = results db @ rs" "length rs = j" "contacts d' = contacts db"
    by auto
  then show ?thesis
    using assms(1,2) cs by (simp add: try_block_def)
qed

lemma final_save_failure_throws:
  assumes "findInitial e = ReadDoc" and "findSettings e = Inr st" and "saveFinal e = Some err"
  shows "\<exists>err' d. try_block e db = Thrown err' d"
  using assms
  by (cases "contact_loop e st 0 (contacts db) (db, db)")
     (simp_all add: try_block_def mark_completed_def)

lemma recover_ok:
  "findRecovery e = ReadDoc \<Longrightarrow> saveRecovery e = None \<Longrightarrow>
   recover e d = (Resolved, pre_save (d\<lparr>status := Paused\<rparr>))"
  by (simp add: recover_def)

text \<open>
  Whenever the loop is left by \<^verbatim>\<open>break\<close> and the final save succeeds, the run persists
  \<^verbatim>\<open>completed\<close>.
\<close>

lemma pause_break_persists_completed:
  assumes "findInitial e = ReadDoc" and "findSettings e = Inr st"
    and "contact_loop e st 0 (contacts db) (db, db) = Break s" and "saveFinal e = None"
  shows "status (snd (processCampaignDirectly e db)) = Completed"
  using assms
  by (simp add: processCampaignDirectly_def try_block_def mark_completed_def)

text \<open>
  The campaigns with earlier results arise from runs that met a store failure: the save
  after the second contact throws and the handler pauses the campaign; the final save
  throws, the handler pauses the campaign and \<^verbatim>\<open>startCampaign\<close> starts it again.
\<close>

lemma campaign_resumed_reachable:
  "snd (processCampaignDirectly
      (env_reliable\<lparr>saveContact := (\<lambda>i. if i = 1 then Some ''store unavailable'' else None)\<rparr>)
      (campaign_resumed\<lparr>status := Running, results := [], successCount := 0\<rparr>))
     = campaign_resumed"
  by (simp add: run_defs example_defs example_defs2 digit_char_def)

lemma campaign_restarted_reachable:
  "snd (processCampaignDirectly (env_reliable\<lparr>saveFinal := Some ''store unavailable''\<rparr>)
      (campaign_restarted\<lparr>results := [], successCount := 0\<rparr>))
     = campaign_restarted\<lparr>status := Paused\<rparr>
   \<and> startCampaign env_reliable (campaign_restarted\<lparr>status := Paused\<rparr>)
     = (Response 200 True ''Campaign started successfully'', campaign_restarted, True)"
  by (simp add: run_defs example_defs example_defs2 startCampaign_def digit_char_def)

subsection \<open>The queue path\<close>

lemma process_contact_job_ok:
  assumes "findReread e (contactIndex j) = ReadDoc" and "\<not> pauseRequested e (contactIndex j)"
    and "status db \<noteq> Paused" and "saveContact e (contactIndex j) = None"
    and "campaignType j \<noteq> All"
  shows "process_contact_job e j db =
     JobReturned (pre_save (job_push j (attempt_queue e j) (job_count (attempt_queue e j) db)))"
  using assms by (simp add: process_contact_job_def Let_def)

lemma job_fields:
  "results (pre_save (job_push j a (job_count a db))) = results db @
     [\<lparr>contactId = string_of_nat (contactIndex j), contactName = name (job_contact j),
       methods = [method_entry (campaignType j) a],
       overallStatus = (if isl a then OFailed else Success)\<rparr>]"
  "successCount (pre_save (job_push j a (job_count a db))) =
     successCount db + (if isl a then 0 else 1)"
  "failureCount (pre_save (job_push j a (job_count a db))) =
     failureCount db + (if isl a then 1 else 0)"
  "contacts (pre_save (job_push j a (job_count a db))) = contacts db"
  "totalContacts (pre_save (job_push j a (job_count a db))) = length (contacts db)"
  "status (pre_save (job_push j a (job_count a db))) =
     (if totalContacts db \<le> length (results db) + 1 then Completed else status db)"
  by (cases a; simp add: job_push_def job_count_def pre_save_def method_entry_def Let_def
        del: string_of_nat.simps)+

lemma queue_natural:
  assumes r: "\<forall>i. findReread e i = ReadDoc" and p: "\<forall>i. \<not> pauseRequested e i"
    and s: "\<forall>i. saveContact e i = None" and t: "t \<noteq> All"
    and "status db = Running" and "totalContacts db = length (contacts db)"
    and "length (results db) + length ks = length (contacts db)"
  shows "results (run_contact_jobs e (enqueue_contacts i ks tmpl t) db) =
       results db @ map (\<lambda>j. fst (job_outcome e j)) (enqueue_contacts i ks tmpl t)
     \<and> successCount (run_contact_jobs e (enqueue_contacts i ks tmpl t) db) =
       successCount db
         + length (filter (\<lambda>j. snd (job_outcome e j)) (enqueue_contacts i ks tmpl t))
     \<and> failureCount (run_contact_jobs e (enqueue_contacts i ks tmpl t) db) =
       failureCount db
         + length (filter (\<lambda>j. \<not> snd (job_outcome e j)) (enqueue_contacts i ks tmpl t))
     \<and> status (run_contact_jobs e (enqueue_contacts i ks tmpl t) db) =
       (if ks = [] then Running else Completed)
     \<and> contacts (run_contact_jobs e (enqueue_contacts i ks tmpl t) db) = contacts db
     \<and> totalContacts (run_contact_jobs e (enqueue_contacts i ks tmpl t) db) = length (contacts db)"
  using assms(5-7)
proof (induction ks arbitrary: i db)
  case Nil
  then show ?case by simp
next
  case (Cons k ks)
  let ?j = "\<lparr>job_contact = k, contactIndex = i, job_messageTemplate = tmpl, campaignType = t\<rparr>"
  let ?a = "attempt_queue e ?j"
  let ?d = "pre_save (job_push ?j ?a (job_count ?a db))"
  have job: "process_contact_job e ?j db = JobReturned ?d"
    using process_contact_job_ok [of e ?j db] r p s t Cons.prems(1) by simp
  have run: "run_contact_jobs e (enqueue_contacts i (k # ks) tmpl t) db =
      run_contact_jobs e (enqueue_contacts (Suc i) ks tmpl t) ?d"
    by (simp add: job)
  have st: "status ?d = (if ks = [] then Completed else Running)"
    using Cons.prems by (cases ks) (auto simp: job_fields(6))
  show ?case
  proof (cases "ks = []")
    case True
    then show ?thesis
      unfolding run using st
      by (simp add: job_fields job_outcome_def del: string_of_nat.simps)
  next
    case False
    have pre: "status ?d = Running" "totalContacts ?d = length (contacts ?d)"
      "length (results ?d) + length ks = length (contacts ?d)"
      using st False Cons.prems by (simp_all add: job_fields del: string_of_nat.simps)
    from Cons.IH [OF pre, of "Suc i"] False show ?thesis
      unfolding run
      by (simp add: job_fields job_outcome_def del: string_of_nat.simps)
  qed
qed

lemma queue_path_natural:
  assumes "findInitial e = ReadDoc" and "saveStart e = None"
    and "\<forall>i. findReread e i = ReadDoc" and "\<forall>i. \<not> pauseRequested e i"
    and "\<forall>i. saveContact e i = None" and "ctype db \<noteq> All"
    and "results db = []" and "contacts db \<noteq> []"
  shows "results (queue_path e db) =
       map (\<lambda>j. fst (job_outcome e j))
         (enqueue_contacts 0 (contacts db) (messageTemplate db) (ctype db))
     \<and> successCount (queue_path e db) = successCount db
         + length (filter (\<lambda>j. snd (job_outcome e j))
             (enqueue_contacts 0 (contacts db) (messageTemplate db) (ctype db)))
     \<and> failureCount (queue_path e db) = failureCount db
         + length (filter (\<lambda>j. \<not> snd (job_outcome e j))
             (enqueue_contacts 0 (contacts db) (messageTemplate db) (ctype db)))
     \<and> status (queue_path e db) = Completed
     \<and> totalContacts (queue_path e db) = length (contacts db)"
proof -
  let ?d = "pre_save (db\<lparr>status := Running\<rparr>)"
  have q: "queue_path e db =
      run_contact_jobs e (enqueue_contacts 0 (contacts db) (messageTemplate db) (ctype db)) ?d"
    using assms(1,2) by (simp add: queue_path_def start_campaign_job_def)
  have pre: "status ?d = Running" "totalContacts ?d = length (contacts ?d)"
    "length (results ?d) + length (contacts db) = length (contacts ?d)"
    using assms(7) by (simp_all add: pre_save_def)
  from queue_natural [OF assms(3,4,5,6) pre, of 0 "messageTemplate db"] assms(7,8)
  show ?thesis
    unfolding q by (simp add: pre_save_def)
qed

lemma attempts_agree:
  assumes "t \<noteq> All" and "findSettings e = Inr st" and "t = Call \<longrightarrow> settings_complete st"
  shows "isl (attempt_direct e st tmpl i k t)
       \<and> isl (attempt_queue e \<lparr>job_contact = k, contactIndex = i, job_messageTemplate = tmpl,
                campaignType = t\<rparr>)
     \<or> attempt_direct e st tmpl i k t =
         attempt_queue e \<lparr>job_contact = k, contactIndex = i, job_messageTemplate = tmpl,
           campaignType = t\<rparr>"
  using assms
  by (cases t)
     (auto simp: attempt_direct_def attempt_queue_def settings_complete_def
        split: option.splits)

lemma method_shape_entry:
  "method_shape (method_entry t a) =
     (t, if isl a then Failed else Sent, case a of Inl err \<Rightarrow> None | Inr r \<Rightarrow> r)"
  by (cases a) (simp_all add: method_shape_def method_entry_def)

lemma outcome_agree:
  assumes "findReread e i = ReadDoc" and "t \<noteq> All" and "findSettings e = Inr st"
    and "t = Call \<longrightarrow> settings_complete st"
  shows "result_shape (iter_result e st tmpl t i k) =
       result_shape (fst (job_outcome e \<lparr>job_contact = k, contactIndex = i,
          job_messageTemplate = tmpl, campaignType = t\<rparr>))"
    and "iter_success e st tmpl t i k =
       snd (job_outcome e \<lparr>job_contact = k, contactIndex = i,
          job_messageTemplate = tmpl, campaignType = t\<rparr>)"
  using assms(1,2) attempts_agree [OF assms(2,3,4), of tmpl i k]
  by (auto simp: result_shape_def iter_result_def iter_methods_def iter_success_def
        attempted_def succeeded_def methodsToExecute_def job_outcome_def overall_of_def
        method_shape_entry mr_status_method_entry
      simp del: string_of_nat.simps split: sum.splits)

lemma outcomes_agree:
  assumes "\<forall>i. findReread e i = ReadDoc" and "t \<noteq> All" and "findSettings e = Inr st"
    and "t = Call \<longrightarrow> settings_complete st"
  shows "map (\<lambda>x. result_shape (fst x)) (loop_outcomes e st tmpl t i ks) =
       map (\<lambda>j. result_shape (fst (job_outcome e j))) (enqueue_contacts i ks tmpl t)
     \<and> map snd (loop_outcomes e st tmpl t i ks) =
       map (\<lambda>j. snd (job_outcome e j)) (enqueue_contacts i ks tmpl t)"
proof (induction ks arbitrary: i)
  case Nil
  then show ?case by simp
next
  case (Cons k ks)
  have "findReread e i = ReadDoc" using assms(1) by simp
  from outcome_agree [OF this assms(2,3,4), of tmpl k] Cons [of "Suc i"]
  show ?case by simp
qed

text \<open>
  Where the two paths part: a campaign of type \<^verbatim>\<open>all\<close> (the queue handler rejects the
  type, and the schema rejects its result), an empty contact list (no job ever marks the
  campaign completed), a pause (the direct path marks the campaign completed, the queue
  path leaves it paused), and the text of the error recorded for a missing field.
\<close>

lemma paths_differ_type_all:
  "map (\<lambda>r. map mr_method (methods r))
      (results (snd (processCampaignDirectly env_reliable campaign_all))) = [[Sms, Email, Call]]
   \<and> status (snd (processCampaignDirectly env_reliable campaign_all)) = Completed
   \<and> results (queue_path env_reliable campaign_all) = []
   \<and> status (queue_path env_reliable campaign_all) = Running"
  by (simp add: run_defs example_defs campaign_all_def queue_defs digit_char_def)

lemma paths_differ_empty_contacts:
  "status (snd (processCampaignDirectly env_reliable (campaign_empty\<lparr>status := Running\<rparr>)))
      = Completed
   \<and> status (queue_path env_reliable (campaign_empty\<lparr>status := Running\<rparr>)) = Running"
  by (simp add: run_defs example_defs example_defs2 queue_defs)

lemma paths_differ_on_pause:
  "status (snd (processCampaignDirectly (env_reliable\<lparr>pauseRequested := (\<lambda>i. i = 1)\<rparr>)
      campaign_abc)) = Completed
   \<and> status (queue_path (env_reliable\<lparr>pauseRequested := (\<lambda>i. i = 1)\<rparr>) campaign_abc) = Paused
   \<and> map contactId (results (queue_path (env_reliable\<lparr>pauseRequested := (\<lambda>i. i = 1)\<rparr>)
        campaign_abc)) = [''0'']"
  by (simp add: run_defs example_defs queue_defs digit_char_def)

lemma paths_differ_error_text:
  "map (\<lambda>r. map error (methods r))
      (results (snd (processCampaignDirectly env_reliable campaign_abc)))
     = [[None], [Some ''Phone number required for SMS''], [None]]
   \<and> map (\<lambda>r. map error (methods r)) (results (queue_path env_reliable campaign_abc))
     = [[None], [Some ''Phone number is required for SMS''], [None]]"
  by (simp add: run_defs example_defs queue_defs digit_char_def)

section \<open>The claims\<close>

subsection \<open>C1: a pause observed by the direct path\<close>

text \<open>
  Claim C1 says that a direct-path run which leaves its contact loop because the re-read
  campaign is paused stops without processing the remaining contacts and ends with the
  persisted status \<^verbatim>\<open>paused\<close>, never \<^verbatim>\<open>completed\<close>. The code at the scenario campaign
  (contacts A, B, C) with a pause served after contact A: the loop is left by \<^verbatim>\<open>break\<close>
  at contact B and only A has a result, but the statements after the loop run all the
  same and the persisted status is \<^verbatim>\<open>completed\<close>.
\<close>

theorem C1_pause_break_marks_completed:
  "left_by_break (contact_loop (env_reliable\<lparr>pauseRequested := (\<lambda>i. i = 1)\<rparr>) None 0
      (contacts campaign_abc) (campaign_abc, campaign_abc))
   \<and> status (snd (processCampaignDirectly (env_reliable\<lparr>pauseRequested := (\<lambda>i. i = 1)\<rparr>)
        campaign_abc)) = Completed
   \<and> map contactId (results (snd (processCampaignDirectly
        (env_reliable\<lparr>pauseRequested := (\<lambda>i. i = 1)\<rparr>) campaign_abc))) = [''0'']"
  by (simp add: run_defs example_defs left_by_break_def digit_char_def)

subsection \<open>C2: the queue path and the direct path\<close>

text \<open>
  Claim C2 says that for the same contacts and gateway responses the queue path and the
  direct path produce the same observable outcome. Counterexample to C2: a call campaign
  with one contact, for a user whose voice settings are empty, and a gateway that accepts
  every call. The direct path places the call and records a success; the queue handler
  refuses incomplete settings and records a failure.
\<close>

theorem C2_counterexample:
  "map overallStatus (results (snd (processCampaignDirectly env_blank_settings campaign_call)))
     = [Success]
   \<and> map overallStatus (results (queue_path env_blank_settings campaign_call)) = [OFailed]
   \<and> successCount (snd (processCampaignDirectly env_blank_settings campaign_call)) = 1
   \<and> successCount (queue_path env_blank_settings campaign_call) = 0"
  by (simp add: run_defs example_defs env_blank_settings_def settings_blank_def
        campaign_call_def queue_path_def start_campaign_job_def process_contact_job_def
        attempt_queue_def job_push_def job_count_def digit_char_def)

text \<open>
  Claim C2 as amended: for a campaign of one channel (\<^verbatim>\<open>sms\<close>, \<^verbatim>\<open>email\<close>, or \<^verbatim>\<open>call\<close>
  with voice settings that are absent or complete) with at least one contact and no
  earlier results, when the store works and no pause is requested, the direct path and
  the queue path (its jobs run once each, in the order of their delays) both end with
  status \<^verbatim>\<open>completed\<close>, with the same \<^verbatim>\<open>successCount\<close> and \<^verbatim>\<open>failureCount\<close>, and with one
  result per contact in contact-list order that agree in \<^verbatim>\<open>contactId\<close>, \<^verbatim>\<open>contactName\<close>,
  \<^verbatim>\<open>overallStatus\<close> and the channel, status and response of each method; the number of
  results equals \<^verbatim>\<open>totalContacts\<close> on both paths.
\<close>

theorem C2_paths_agree_single_channel:
  assumes "findInitial e = ReadDoc" and "saveStart e = None"
    and "\<forall>i. findReread e i = ReadDoc" and "\<forall>i. saveContact e i = None"
    and "saveFinal e = None" and "\<forall>i. \<not> pauseRequested e i"
    and "findSettings e = Inr st" and "ctype db \<noteq> All"
    and "ctype db = Call \<longrightarrow> settings_complete st"
    and "contacts db \<noteq> []" and "results db = []" and "status db = Running"
  shows "status (snd (processCampaignDirectly e db)) = Completed
     \<and> status (queue_path e db) = Completed
     \<and> map result_shape (results (snd (processCampaignDirectly e db))) =
         map result_shape (results (queue_path e db))
     \<and> map contactId (results (queue_path e db)) = map string_of_nat [0..<length (contacts db)]
     \<and> successCount (snd (processCampaignDirectly e db)) = successCount (queue_path e db)
     \<and> failureCount (snd (processCampaignDirectly e db)) = failureCount (queue_path e db)
     \<and> length (results (snd (processCampaignDirectly e db))) =
         totalContacts (snd (processCampaignDirectly e db))
     \<and> length (results (queue_path e db)) = totalContacts (queue_path e db)"
proof -
  let ?os = "loop_outcomes e st (messageTemplate db) (ctype db) 0 (contacts db)"
  let ?js = "enqueue_contacts 0 (contacts db) (messageTemplate db) (ctype db)"
  have np: "status db \<noteq> Paused" using assms(12) by simp
  from direct_natural [OF assms(1,7,4,5,6) np] obtain d where
    d: "processCampaignDirectly e db = (Resolved, d)" "status d = Completed"
       "results d = results db @ map fst ?os"
       "successCount d = successCount db + length (filter snd ?os)"
       "failureCount d = failureCount db + length (filter (\<lambda>x. \<not> snd x) ?os)"
       "totalContacts d = length (contacts db)"
    by blast
  note q = queue_path_natural [OF assms(1,2,3,6,4,8,11,10)]
  from outcomes_agree [OF assms(3,8,7,9), of "messageTemplate db" 0 "contacts db"]
  have ag: "map (\<lambda>x. result_shape (fst x)) ?os = map (\<lambda>j. result_shape (fst (job_outcome e j))) ?js"
    and fl: "map snd ?os = map (\<lambda>j. snd (job_outcome e j)) ?js"
    by simp_all
  have c1: "length (filter snd ?os) = length (filter (\<lambda>j. snd (job_outcome e j)) ?js)"
  proof -
    have "length (filter snd ?os) = length (filter (\<lambda>b. b) (map snd ?os))"
      by (simp add: filter_map comp_def)
    also have "\<dots> = length (filter (\<lambda>b. b) (map (\<lambda>j. snd (job_outcome e j)) ?js))"
      by (simp only: fl)
    finally show ?thesis by (simp add: filter_map comp_def)
  qed
  have c2: "length (filter (\<lambda>x. \<not> snd x) ?os)
      = length (filter (\<lambda>j. \<not> snd (job_outcome e j)) ?js)"
  proof -
    have "length (filter (\<lambda>x. \<not> snd x) ?os) = length (filter (\<lambda>b. \<not> b) (map snd ?os))"
      by (simp add: filter_map comp_def)
    also have "\<dots> = length (filter (\<lambda>b. \<not> b) (map (\<lambda>j. snd (job_outcome e j)) ?js))"
      by (simp only: fl)
    finally show ?thesis by (simp add: filter_map comp_def)
  qed
  have ids: "map contactId (map fst ?os) = map string_of_nat [0..<length (contacts db)]"
    using loop_outcomes_ids [of e st "messageTemplate db" "ctype db" 0 "contacts db"]
    by (simp add: comp_def)
  have sh: "map result_shape (results d) = map result_shape (results (queue_path e db))"
    using d(3) q ag assms(11) by (simp add: comp_def)
  have fs: "map contactId xs = map fst (map result_shape xs)" for xs
    by (simp add: result_shape_def comp_def)
  have "map contactId (results (queue_path e db)) = map contactId (results d)"
    unfolding fs sh ..
  then have qi: "map contactId (results (queue_path e db)) = map string_of_nat [0..<length (contacts db)]"
    using d(3) ids assms(11) by simp
  have ld: "length (results d) = length (contacts db)"
    using d(3) assms(11) by (simp add: loop_outcomes_length)
  have lq: "length (results (queue_path e db)) = length (contacts db)"
    using arg_cong [OF qi, of length] by simp
  show ?thesis
    using d q sh qi c1 c2 ld lq by simp
qed

text \<open>
  Witness for C2 as amended: the scenario campaign in the reliable environment; both
  paths record success, failed, success.
\<close>

theorem C2_witness:
  "findInitial env_reliable = ReadDoc \<and> saveStart env_reliable = None
   \<and> (\<forall>i. findReread env_reliable i = ReadDoc) \<and> (\<forall>i. saveContact env_reliable i = None)
   \<and> saveFinal env_reliable = None \<and> (\<forall>i. \<not> pauseRequested env_reliable i)
   \<and> findSettings env_reliable = Inr None \<and> ctype campaign_abc = Sms
   \<and> contacts campaign_abc = [contact_A, contact_B, contact_C]
   \<and> results campaign_abc = [] \<and> status campaign_abc = Running
   \<and> status (snd (processCampaignDirectly env_reliable campaign_abc)) = Completed
   \<and> status (queue_path env_reliable campaign_abc) = Completed
   \<and> map result_shape (results (snd (processCampaignDirectly env_reliable campaign_abc))) =
        map result_shape (results (queue_path env_reliable campaign_abc))
   \<and> map overallStatus (results (queue_path env_reliable campaign_abc))
        = [Success, OFailed, Success]
   \<and> successCount (snd (processCampaignDirectly env_reliable campaign_abc)) =
        successCount (queue_path env_reliable campaign_abc)
   \<and> failureCount (snd (processCampaignDirectly env_reliable campaign_abc)) =
        failureCount (queue_path env_reliable campaign_abc)
   \<and> length (results (queue_path env_reliable campaign_abc)) =
        totalContacts (queue_path env_reliable campaign_abc)"
proof -
  have c: "ctype campaign_abc \<noteq> All" "ctype campaign_abc = Call \<longrightarrow> settings_complete None"
    "contacts campaign_abc \<noteq> []" "results campaign_abc = []" "status campaign_abc = Running"
    by (simp_all add: campaign_abc_def)
  have o: "map overallStatus (results (queue_path env_reliable campaign_abc))
        = [Success, OFailed, Success]"
    by (simp add: example_defs queue_path_def start_campaign_job_def process_contact_job_def
          attempt_queue_def job_push_def job_count_def method_entry_def pre_save_def
          pauseCampaign_def Let_def)
  from C2_paths_agree_single_channel [OF env_reliable_simps(1,2,4,5,6,7,8) c] o
  show ?thesis
    by (simp add: env_reliable_simps campaign_abc_def)
qed

subsection \<open>C3: growth of the results and resuming\<close>

text \<open>
  Claim C3 says that \<^verbatim>\<open>results.length\<close> never exceeds \<^verbatim>\<open>totalContacts\<close> and that starting
  a paused campaign that has \<open>k\<close> results again resumes at contact index \<open>k\<close>.
  Counterexample to C3: a paused campaign with two contacts and one result is accepted by
  \<^verbatim>\<open>startCampaign\<close>; the run starts again at index 0, so the campaign ends with three
  results for two contacts, two of them for contact index 0. (The paused campaign is what
  an earlier run leaves behind, see \<open>campaign_resumed_reachable\<close>.)
\<close>

theorem C3_counterexample:
  "startCampaign env_reliable campaign_resumed =
     (Response 200 True ''Campaign started successfully'', campaign_resumed\<lparr>status := Running\<rparr>, True)
   \<and> length (results campaign_resumed) = 1
   \<and> map contactId (results (snd (start_and_run env_reliable campaign_resumed))) = [''0'', ''0'', ''1'']
   \<and> totalContacts (snd (start_and_run env_reliable campaign_resumed)) = 2"
  by (simp add: run_defs example_defs example_defs2 start_and_run_def startCampaign_def
        digit_char_def)

text \<open>
  Claim C3 as amended: a direct-path run only appends to the persisted results, at most
  one result per contact, so a run that starts with no results never exceeds
  \<^verbatim>\<open>totalContacts\<close>; every run starts at contact index 0 whatever results exist: after
  \<^verbatim>\<open>startCampaign\<close> on a paused campaign with \<open>k\<close> results, a run that is neither paused
  nor hit by a store failure appends a new result for every contact index from 0 and
  marks the campaign completed.
\<close>

theorem C3_results_growth_and_restart:
  "(\<exists>ys. results (snd (processCampaignDirectly e db)) = results db @ ys
        \<and> length ys \<le> length (contacts db))
   \<and> (results db = [] \<and> totalContacts db = length (contacts db) \<longrightarrow>
        length (results (snd (processCampaignDirectly e db)))
          \<le> totalContacts (snd (processCampaignDirectly e db)))
   \<and> (status db = Paused \<and> findStart e = ReadDoc \<and> saveStart e = None
      \<and> findInitial e = ReadDoc \<and> findSettings e = Inr st
      \<and> (\<forall>i. saveContact e i = None) \<and> saveFinal e = None \<and> (\<forall>i. \<not> pauseRequested e i)
      \<longrightarrow> (\<exists>rs. results (snd (start_and_run e db)) = results db @ rs
            \<and> map contactId rs = map string_of_nat [0..<length (contacts db)]
            \<and> status (snd (start_and_run e db)) = Completed))"
proof (intro conjI impI)
  show "\<exists>ys. results (snd (processCampaignDirectly e db)) = results db @ ys
        \<and> length ys \<le> length (contacts db)"
    using run_results_grow [of e db] by blast
next
  assume "results db = [] \<and> totalContacts db = length (contacts db)"
  then show "length (results (snd (processCampaignDirectly e db)))
      \<le> totalContacts (snd (processCampaignDirectly e db))"
    using run_results_grow [of e db] run_total [of db e] by auto
next
  assume h: "status db = Paused \<and> findStart e = ReadDoc \<and> saveStart e = None
      \<and> findInitial e = ReadDoc \<and> findSettings e = Inr st
      \<and> (\<forall>i. saveContact e i = None) \<and> saveFinal e = None \<and> (\<forall>i. \<not> pauseRequested e i)"
  let ?d = "pre_save (db\<lparr>status := Running\<rparr>)"
  let ?os = "loop_outcomes e st (messageTemplate ?d) (ctype ?d) 0 (contacts ?d)"
  have sr: "start_and_run e db =
      (Response 200 True ''Campaign started successfully'', snd (processCampaignDirectly e ?d))"
    using h by (simp add: start_and_run_def startCampaign_def)
  have np: "status ?d \<noteq> Paused" by (simp add: pre_save_def)
  from h have a: "findInitial e = ReadDoc" "findSettings e = Inr st"
    "\<forall>j. saveContact e j = None" "saveFinal e = None" "\<forall>j. \<not> pauseRequested e j"
    by simp_all
  from direct_natural [OF a np] obtain d where
    d: "processCampaignDirectly e ?d = (Resolved, d)" "status d = Completed"
       "results d = results ?d @ map fst ?os"
    by blast
  have ids: "map contactId (map fst ?os) = map string_of_nat [0..<length (contacts db)]"
    using loop_outcomes_ids [of e st "messageTemplate ?d" "ctype ?d" 0 "contacts ?d"]
    by (simp add: comp_def pre_save_def)
  show "\<exists>rs. results (snd (start_and_run e db)) = results db @ rs
            \<and> map contactId rs = map string_of_nat [0..<length (contacts db)]
            \<and> status (snd (start_and_run e db)) = Completed"
    using d ids by (intro exI [of _ "map fst ?os"]) (simp add: sr pre_save_def)
qed

text \<open>
  Witness for C3 as amended: the scenario campaign (no results yet) and the paused
  campaign with one result, in the reliable environment.
\<close>

theorem C3_witness:
  "results campaign_abc = [] \<and> totalContacts campaign_abc = length (contacts campaign_abc)
   \<and> length (results (snd (processCampaignDirectly env_reliable campaign_abc)))
        \<le> totalContacts (snd (processCampaignDirectly env_reliable campaign_abc))
   \<and> status campaign_resumed = Paused \<and> findStart env_reliable = ReadDoc
   \<and> saveStart env_reliable = None \<and> findInitial env_reliable = ReadDoc
   \<and> findSettings env_reliable = Inr None \<and> (\<forall>i. saveContact env_reliable i = None)
   \<and> saveFinal env_reliable = None \<and> (\<forall>i. \<not> pauseRequested env_reliable i)
   \<and> (\<exists>ys. results (snd (processCampaignDirectly env_reliable campaign_resumed))
          = results campaign_resumed @ ys \<and> length ys \<le> length (contacts campaign_resumed))
   \<and> (\<exists>rs. results (snd (start_and_run env_reliable campaign_resumed))
          = results campaign_resumed @ rs
        \<and> map contactId rs = map string_of_nat [0..<length (contacts campaign_resumed)]
        \<and> status (snd (start_and_run env_reliable campaign_resumed)) = Completed)"
proof -
  have s: "status campaign_resumed = Paused"
    by (simp add: campaign_resumed_def campaign_abc_def)
  have f: "results campaign_abc = []" "totalContacts campaign_abc = length (contacts campaign_abc)"
    by (simp_all add: campaign_abc_def)
  from C3_results_growth_and_restart [of env_reliable campaign_resumed None]
    C3_results_growth_and_restart [of env_reliable campaign_abc None] s f
  show ?thesis
    by (simp add: env_reliable_simps)
qed

subsection \<open>C4: a run that is not paused\<close>

text \<open>
  Claim C4 says that a direct-path run which iterates over all contacts without a pause
  ends with \<^verbatim>\<open>results.length\<close> equal to \<^verbatim>\<open>totalContacts\<close>. Counterexample to C4: a running
  campaign with one contact that already holds one result (it was paused by an earlier
  run whose final save failed and has been started again, see
  \<open>campaign_restarted_reachable\<close>); the run processes the contact and is not paused, and
  the campaign ends with two results for one contact.
\<close>

theorem C4_counterexample:
  "processCampaignDirectly env_reliable campaign_restarted =
     (Resolved, campaign_restarted\<lparr>status := Completed,
        results := [result_A, result_A], successCount := 2\<rparr>)
   \<and> length (results (snd (processCampaignDirectly env_reliable campaign_restarted))) = 2
   \<and> totalContacts (snd (processCampaignDirectly env_reliable campaign_restarted)) = 1"
  by (simp add: run_defs example_defs example_defs2 digit_char_def)

text \<open>
  Claim C4 as amended: a direct-path run that is not paused and in which the initial
  read, the settings read and every save succeed resolves with status \<^verbatim>\<open>completed\<close>,
  having appended to the results it started with exactly one result per contact, in
  contact-list order (contact ids 0, 1, ... and the contacts' names); so
  \<^verbatim>\<open>results.length\<close> equals \<^verbatim>\<open>totalContacts\<close> when the run started with no results.
\<close>

theorem C4_natural_run:
  assumes "findInitial e = ReadDoc" and "findSettings e = Inr st"
    and "\<forall>i. saveContact e i = None" and "saveFinal e = None"
    and "\<forall>i. \<not> pauseRequested e i" and "status db \<noteq> Paused"
  shows "\<exists>d rs. processCampaignDirectly e db = (Resolved, d) \<and> status d = Completed
     \<and> results d = results db @ rs \<and> length rs = length (contacts db)
     \<and> map contactId rs = map string_of_nat [0..<length (contacts db)]
     \<and> map contactName rs = map name (contacts db)
     \<and> totalContacts d = length (contacts db)
     \<and> (results db = [] \<longrightarrow> length (results d) = totalContacts d)"
proof -
  let ?os = "loop_outcomes e st (messageTemplate db) (ctype db) 0 (contacts db)"
  from direct_natural [OF assms] obtain d where
    d: "processCampaignDirectly e db = (Resolved, d)" "status d = Completed"
       "results d = results db @ map fst ?os" "totalContacts d = length (contacts db)"
    by blast
  have "length (map fst ?os) = length (contacts db)"
    by (simp add: loop_outcomes_length)
  moreover have "map contactId (map fst ?os) = map string_of_nat [0..<length (contacts db)]"
    using loop_outcomes_ids [of e st "messageTemplate db" "ctype db" 0 "contacts db"]
    by (simp add: comp_def)
  moreover have "map contactName (map fst ?os) = map name (contacts db)"
    using loop_outcomes_names [of e st "messageTemplate db" "ctype db" 0 "contacts db"]
    by (simp add: comp_def)
  ultimately show ?thesis
    using d by (intro exI [of _ d] exI [of _ "map fst ?os"]) simp
qed

text \<open>Witness for C4 as amended: the scenario campaign in the reliable environment.\<close>

theorem C4_witness:
  "findInitial env_reliable = ReadDoc \<and> findSettings env_reliable = Inr None
   \<and> (\<forall>i. saveContact env_reliable i = None) \<and> saveFinal env_reliable = None
   \<and> (\<forall>i. \<not> pauseRequested env_reliable i) \<and> status campaign_abc = Running
   \<and> results campaign_abc = []
   \<and> (\<exists>d rs. processCampaignDirectly env_reliable campaign_abc = (Resolved, d)
        \<and> status d = Completed \<and> results d = results campaign_abc @ rs
        \<and> length rs = length (contacts campaign_abc)
        \<and> map contactId rs = map string_of_nat [0..<length (contacts campaign_abc)]
        \<and> map contactName rs = map name (contacts campaign_abc)
        \<and> totalContacts d = length (contacts campaign_abc)
        \<and> length (results d) = totalContacts d)"
proof -
  have s: "status campaign_abc \<noteq> Paused" "status campaign_abc = Running"
    "results campaign_abc = []"
    by (simp_all add: campaign_abc_def)
  from C4_natural_run [OF env_reliable_simps(1,8,5,6,7) s(1)] s
  show ?thesis
    by (simp add: env_reliable_simps)
qed

subsection \<open>C5: the stored status and the counters\<close>

text \<open>
  Claim C5 says that for every processed contact the stored \<^verbatim>\<open>overallStatus\<close> is \<^verbatim>\<open>failed\<close>
  if no method succeeded, and that \<^verbatim>\<open>successCount\<close> is incremented when the status is
  \<^verbatim>\<open>success\<close> or \<^verbatim>\<open>partial\<close>, \<^verbatim>\<open>failureCount\<close> otherwise. It holds on the normal path
  (\<open>normal_path_status_and_counts\<close>). The code at a contact whose re-read of the campaign
  throws: no method is attempted, the per-contact \<^verbatim>\<open>catch\<close> increments \<^verbatim>\<open>failureCount\<close>,
  and the result is stored with \<^verbatim>\<open>overallStatus\<close> \<^verbatim>\<open>success\<close>.
\<close>

theorem C5_reread_throws_example:
  "processCampaignDirectly env_reread_throws (campaign_abc\<lparr>contacts := [contact_A]\<rparr>) =
     (Resolved, campaign_abc\<lparr>status := Completed, contacts := [contact_A],
        results := [\<lparr>contactId = ''0'', contactName = ''A'', methods = [],
                     overallStatus = Success\<rparr>],
        totalContacts := 1, successCount := 0, failureCount := 1\<rparr>)"
  by (simp add: run_defs example_defs example_defs2 digit_char_def)

subsection \<open>C6: the guard of startCampaign\<close>

text \<open>
  Claim C6: for a campaign whose status is \<^verbatim>\<open>running\<close> or \<^verbatim>\<open>completed\<close>, \<^verbatim>\<open>startCampaign\<close>
  rejects the request (HTTP 400, \<^verbatim>\<open>success: false\<close>) and leaves the campaign as it is,
  launching no run; for any other status it sets the status to \<^verbatim>\<open>running\<close> and saves, and
  the run it launches starts from that persisted campaign. A run is launched only after
  \<^verbatim>\<open>running\<close> has been persisted.
\<close>

theorem C6_startCampaign_guard:
  assumes "findStart e = ReadDoc"
  shows "(status db = Running \<or> status db = Completed \<longrightarrow>
            (\<exists>msg. startCampaign e db = (Response 400 False msg, db, False))
            \<and> start_and_run e db = (fst (startCampaign e db), db))
       \<and> (status db \<noteq> Running \<and> status db \<noteq> Completed \<and> saveStart e = None \<longrightarrow>
            startCampaign e db =
              (Response 200 True ''Campaign started successfully'',
               pre_save (db\<lparr>status := Running\<rparr>), True)
            \<and> start_and_run e db =
              (Response 200 True ''Campaign started successfully'',
               snd (processCampaignDirectly e (pre_save (db\<lparr>status := Running\<rparr>)))))
       \<and> (snd (snd (startCampaign e db)) \<longrightarrow>
            status (fst (snd (startCampaign e db))) = Running)"
  using assms
  by (auto simp: startCampaign_def start_and_run_def pre_save_def split: option.splits)

text \<open>
  Witness for C6: the running scenario campaign is rejected, the same campaign as a draft
  is accepted.
\<close>

theorem C6_witness:
  "findStart env_reliable = ReadDoc \<and> status campaign_abc = Running
   \<and> startCampaign env_reliable campaign_abc =
        (Response 400 False ''Campaign is already running'', campaign_abc, False)
   \<and> start_and_run env_reliable campaign_abc =
        (Response 400 False ''Campaign is already running'', campaign_abc)
   \<and> status campaign_draft = Draft \<and> saveStart env_reliable = None
   \<and> startCampaign env_reliable campaign_draft =
        (Response 200 True ''Campaign started successfully'', campaign_abc, True)
   \<and> status (fst (snd (startCampaign env_reliable campaign_draft))) = Running"
  using C6_startCampaign_guard [of env_reliable campaign_abc]
    C6_startCampaign_guard [of env_reliable campaign_draft]
  by (simp add: example_defs example_defs2 startCampaign_def pre_save_def)

subsection \<open>C7: a contact without the field a channel requires\<close>



subsection \<open>C8: an exception that leaves the outer try block\<close>

text \<open>
  Claim C8 says that whenever an exception escapes the per-contact boundary the run sets
  the status to \<^verbatim>\<open>paused\<close>, so that no campaign is left \<^verbatim>\<open>running\<close>. Counterexample to C8:
  the store rejects every save. The save after contact A throws out of the loop, the
  save in the outer \<^verbatim>\<open>catch\<close> throws as well, the promise is rejected and the campaign
  stays \<^verbatim>\<open>running\<close>.
\<close>

theorem C8_counterexample:
  "try_block env_store_down campaign_abc = Thrown ''store unavailable'' campaign_abc
   \<and> processCampaignDirectly env_store_down campaign_abc =
       (Rejected ''store unavailable'', campaign_abc)
   \<and> status campaign_abc = Running"
  by (simp add: run_defs example_defs example_defs2 digit_char_def)

text \<open>
  Claim C8 as amended: when the handler's own read finds the campaign and its save
  succeeds, each failure that leaves the outer \<^verbatim>\<open>try\<close> block ends the run with the
  persisted status \<^verbatim>\<open>paused\<close>: an initial read that throws or finds nothing, a settings
  read that throws, a failing final save, and a failing save at contact \<open>j\<close> reached
  without a pause (then exactly the \<open>j\<close> results before it are persisted: the run
  stopped). A run ends with the status \<^verbatim>\<open>running\<close> only if one of these failures
  occurred and the handler's read did not return the campaign or its save failed.
\<close>

theorem C8_fatal_error_recovery:
  "(findRecovery e = ReadDoc \<and> saveRecovery e = None \<and> findInitial e \<noteq> ReadDoc \<longrightarrow>
      processCampaignDirectly e db = (Resolved, pre_save (db\<lparr>status := Paused\<rparr>)))
   \<and> (findRecovery e = ReadDoc \<and> saveRecovery e = None \<and> findInitial e = ReadDoc
        \<and> isl (findSettings e) \<longrightarrow>
      processCampaignDirectly e db = (Resolved, pre_save (db\<lparr>status := Paused\<rparr>)))
   \<and> (findRecovery e = ReadDoc \<and> saveRecovery e = None \<and> findInitial e = ReadDoc
        \<and> saveFinal e \<noteq> None \<longrightarrow>
      fst (processCampaignDirectly e db) = Resolved
      \<and> status (snd (processCampaignDirectly e db)) = Paused)
   \<and> (findRecovery e = ReadDoc \<and> saveRecovery e = None \<and> findInitial e = ReadDoc
        \<and> \<not> isl (findSettings e) \<and> j < length (contacts db) \<and> saveContact e j \<noteq> None
        \<and> (\<forall>i<j. saveContact e i = None) \<and> (\<forall>i\<le>j. \<not> pauseRequested e i)
        \<and> status db \<noteq> Paused \<longrightarrow>
      fst (processCampaignDirectly e db) = Resolved
      \<and> status (snd (processCampaignDirectly e db)) = Paused
      \<and> (\<exists>rs. results (snd (processCampaignDirectly e db)) = results db @ rs \<and> length rs = j))
   \<and> (status (snd (processCampaignDirectly e db)) = Running \<longrightarrow>
        (findInitial e \<noteq> ReadDoc \<or> isl (findSettings e) \<or> (\<exists>i. saveContact e i \<noteq> None)
           \<or> saveFinal e \<noteq> None)
        \<and> (findRecovery e \<noteq> ReadDoc \<or> saveRecovery e \<noteq> None))
   \<and> (try_block e db = Thrown err db1 \<and> findRecovery e = ReadDoc \<and> saveRecovery e = None \<longrightarrow>
        processCampaignDirectly e db = (Resolved, pre_save (db1\<lparr>status := Paused\<rparr>))
        \<and> results (snd (processCampaignDirectly e db)) = results db1)"
proof (intro conjI impI)
  assume h: "findRecovery e = ReadDoc \<and> saveRecovery e = None \<and> findInitial e \<noteq> ReadDoc"
  then have "\<exists>err'. try_block e db = Thrown err' db"
    by (cases "findInitial e") (simp_all add: try_block_def)
  with h show "processCampaignDirectly e db = (Resolved, pre_save (db\<lparr>status := Paused\<rparr>))"
    by (auto simp: processCampaignDirectly_def recover_ok)
next
  assume h: "findRecovery e = ReadDoc \<and> saveRecovery e = None \<and> findInitial e = ReadDoc
        \<and> isl (findSettings e)"
  then have "\<exists>err'. try_block e db = Thrown err' db"
    by (cases "findSettings e") (simp_all add: try_block_def)
  with h show "processCampaignDirectly e db = (Resolved, pre_save (db\<lparr>status := Paused\<rparr>))"
    by (auto simp: processCampaignDirectly_def recover_ok)
next
  assume h: "findRecovery e = ReadDoc \<and> saveRecovery e = None \<and> findInitial e = ReadDoc
        \<and> saveFinal e \<noteq> None"
  have t: "\<exists>err' d. try_block e db = Thrown err' d"
  proof (cases "findSettings e")
    case (Inl x)
    with h show ?thesis by (simp add: try_block_def)
  next
    case (Inr st)
    from h obtain x where "saveFinal e = Some x" by auto
    with h Inr show ?thesis by (blast intro: final_save_failure_throws)
  qed
  with h show "fst (processCampaignDirectly e db) = Resolved"
    by (auto simp: processCampaignDirectly_def recover_ok)
  from t h show "status (snd (processCampaignDirectly e db)) = Paused"
    by (auto simp: processCampaignDirectly_def recover_ok pre_save_def)
next
  assume h: "findRecovery e = ReadDoc \<and> saveRecovery e = None \<and> findInitial e = ReadDoc
        \<and> \<not> isl (findSettings e) \<and> j < length (contacts db) \<and> saveContact e j \<noteq> None
        \<and> (\<forall>i<j. saveContact e i = None) \<and> (\<forall>i\<le>j. \<not> pauseRequested e i)
        \<and> status db \<noteq> Paused"
  then obtain st x where s: "findSettings e = Inr st" and x: "saveContact e j = Some x"
    by (cases "findSettings e") auto
  from h have a: "findInitial e = ReadDoc" "j < length (contacts db)"
    "\<forall>i<j. saveContact e i = None" "\<forall>i\<le>j. \<not> pauseRequested e i" "status db \<noteq> Paused"
    by simp_all
  from contact_save_failure_pauses [OF a(1) s a(2) x a(3,4,5)] obtain d rs where
    d: "try_block e db = Thrown x d" "results d = results db @ rs" "length rs = j"
    by blast
  with h show "fst (processCampaignDirectly e db) = Resolved"
    by (simp add: processCampaignDirectly_def recover_ok)
  from d h show "status (snd (processCampaignDirectly e db)) = Paused"
    by (simp add: processCampaignDirectly_def recover_ok pre_save_def)
  from d h show "\<exists>rs. results (snd (processCampaignDirectly e db)) = results db @ rs
      \<and> length rs = j"
    by (simp add: processCampaignDirectly_def recover_ok pre_save_def)
next
  assume r: "status (snd (processCampaignDirectly e db)) = Running"
  show "findInitial e \<noteq> ReadDoc \<or> isl (findSettings e) \<or> (\<exists>i. saveContact e i \<noteq> None)
           \<or> saveFinal e \<noteq> None"
  proof (cases "try_block e db")
    case (Done d)
    with r try_block_done [of e db d] show ?thesis
      by (simp add: processCampaignDirectly_def)
  next
    case (Thrown x d)
    from try_block_thrown [OF this] show ?thesis by auto
  qed
  show "findRecovery e \<noteq> ReadDoc \<or> saveRecovery e \<noteq> None"
    using r try_block_done [of e db]
    by (cases "try_block e db"; cases "findRecovery e"; cases "saveRecovery e")
       (simp_all add: processCampaignDirectly_def recover_def pre_save_def)
next
  assume "try_block e db = Thrown err db1 \<and> findRecovery e = ReadDoc \<and> saveRecovery e = None"
  then show "processCampaignDirectly e db = (Resolved, pre_save (db1\<lparr>status := Paused\<rparr>))"
    "results (snd (processCampaignDirectly e db)) = results db1"
    by (simp_all add: processCampaignDirectly_def recover_ok pre_save_def)
qed

text \<open>
  Witness for C8 as amended: one environment for each failure, with a handler that
  works (the campaign is paused), and the store that rejects every save (the campaign
  stays running).
\<close>

theorem C8_witness:
  "findRecovery env_reliable = ReadDoc \<and> saveRecovery env_reliable = None
   \<and> findInitial env_no_campaign = ReadNull
   \<and> processCampaignDirectly env_no_campaign campaign_abc =
        (Resolved, campaign_abc\<lparr>status := Paused\<rparr>)
   \<and> findInitial env_settings_fail = ReadDoc
   \<and> findSettings env_settings_fail = Inl ''settings store unavailable''
   \<and> processCampaignDirectly env_settings_fail campaign_abc =
        (Resolved, campaign_abc\<lparr>status := Paused\<rparr>)
   \<and> saveFinal env_final_save_fails = Some ''store unavailable''
   \<and> fst (processCampaignDirectly env_final_save_fails campaign_abc) = Resolved
   \<and> status (snd (processCampaignDirectly env_final_save_fails campaign_abc)) = Paused
   \<and> saveContact env_second_save_fails 1 = Some ''store unavailable''
   \<and> saveContact env_second_save_fails 0 = None
   \<and> fst (processCampaignDirectly env_second_save_fails campaign_abc) = Resolved
   \<and> status (snd (processCampaignDirectly env_second_save_fails campaign_abc)) = Paused
   \<and> (\<exists>rs. results (snd (processCampaignDirectly env_second_save_fails campaign_abc))
          = results campaign_abc @ rs \<and> length rs = 1)
   \<and> status (snd (processCampaignDirectly env_store_down campaign_abc)) = Running
   \<and> (\<exists>i. saveContact env_store_down i \<noteq> None)
   \<and> saveRecovery env_store_down \<noteq> None
   \<and> try_block env_save_fails_once campaign_abc = Thrown ''store unavailable'' campaign_abc
   \<and> processCampaignDirectly env_save_fails_once campaign_abc =
        (Resolved, campaign_abc\<lparr>status := Paused\<rparr>)"
proof -
  have r: "findRecovery env_reliable = ReadDoc" "saveRecovery env_reliable = None"
    "findRecovery env_no_campaign = ReadDoc" "saveRecovery env_no_campaign = None"
    "findRecovery env_settings_fail = ReadDoc" "saveRecovery env_settings_fail = None"
    "findRecovery env_final_save_fails = ReadDoc" "saveRecovery env_final_save_fails = None"
    "findRecovery env_second_save_fails = ReadDoc" "saveRecovery env_second_save_fails = None"
    "findRecovery env_save_fails_once = ReadDoc" "saveRecovery env_save_fails_once = None"
    "saveRecovery env_store_down \<noteq> None"
    by (simp_all add: example_defs example_defs2 example_defs3)
  have i: "findInitial env_no_campaign = ReadNull" "findInitial env_settings_fail = ReadDoc"
    "findSettings env_settings_fail = Inl ''settings store unavailable''"
    "findInitial env_final_save_fails = ReadDoc"
    "saveFinal env_final_save_fails = Some ''store unavailable''"
    "findInitial env_second_save_fails = ReadDoc"
    "findSettings env_second_save_fails = Inr None"
    "saveContact env_second_save_fails 1 = Some ''store unavailable''"
    "saveContact env_second_save_fails 0 = None"
    "\<forall>i\<le>1. \<not> pauseRequested env_second_save_fails i"
    by (simp_all add: example_defs example_defs2 example_defs3)
  have c: "pre_save (campaign_abc\<lparr>status := Paused\<rparr>) = campaign_abc\<lparr>status := Paused\<rparr>"
    "(1::nat) < length (contacts campaign_abc)" "status campaign_abc \<noteq> Paused"
    "results campaign_abc = []"
    by (simp_all add: campaign_abc_def pre_save_def)
  have t: "try_block env_save_fails_once campaign_abc = Thrown ''store unavailable'' campaign_abc"
    by (simp add: run_defs example_defs example_defs2 digit_char_def)
  have s: "status (snd (processCampaignDirectly env_store_down campaign_abc)) = Running"
    by (simp add: run_defs example_defs example_defs2 digit_char_def)
  have lt: "\<forall>i<1. saveContact env_second_save_fails i = None"
    using i(9) by simp
  note w1 = C8_fatal_error_recovery [where e=env_no_campaign and db=campaign_abc]
  note w2 = C8_fatal_error_recovery [where e=env_settings_fail and db=campaign_abc]
  note w3 = C8_fatal_error_recovery [where e=env_final_save_fails and db=campaign_abc]
  note w4 = C8_fatal_error_recovery [where e=env_second_save_fails and db=campaign_abc and j=1]
  note w5 = C8_fatal_error_recovery [where e=env_store_down and db=campaign_abc]
  note w6 = C8_fatal_error_recovery [where e=env_save_fails_once and db=campaign_abc
      and err="''store unavailable''" and ?db1.0=campaign_abc]
  have a1: "processCampaignDirectly env_no_campaign campaign_abc =
        (Resolved, campaign_abc\<lparr>status := Paused\<rparr>)"
    using w1 r i c by simp
  have a2: "processCampaignDirectly env_settings_fail campaign_abc =
        (Resolved, campaign_abc\<lparr>status := Paused\<rparr>)"
    using w2 r i c by simp
  have a3: "fst (processCampaignDirectly env_final_save_fails campaign_abc) = Resolved
   \<and> status (snd (processCampaignDirectly env_final_save_fails campaign_abc)) = Paused"
    using w3 r i c by simp
  have a4: "fst (processCampaignDirectly env_second_save_fails campaign_abc) = Resolved
   \<and> status (snd (processCampaignDirectly env_second_save_fails campaign_abc)) = Paused
   \<and> (\<exists>rs. results (snd (processCampaignDirectly env_second_save_fails campaign_abc))
          = results campaign_abc @ rs \<and> length rs = 1)"
    using w4 r i c lt by simp
  have a5: "(\<exists>i. saveContact env_store_down i \<noteq> None)"
    using w5 s by (simp add: example_defs example_defs2)
  have a6: "processCampaignDirectly env_save_fails_once campaign_abc =
        (Resolved, campaign_abc\<lparr>status := Paused\<rparr>)"
    using w6 t r c by simp
  show ?thesis
    using a1 a2 a3 a4 a5 a6 r i s t by simp
qed

subsection \<open>C9: a contact whose processing throws before any method is recorded\<close>

text \<open>
  Claim C9: when the per-contact processing throws before any method result is recorded
  (the re-read of the campaign throws), the run still appends a result for the contact;
  its methods list is empty, its \<^verbatim>\<open>overallStatus\<close> is \<^verbatim>\<open>success\<close>, and \<^verbatim>\<open>failureCount\<close>
  (not \<^verbatim>\<open>successCount\<close>) is incremented. The loop then goes on with the next contact.
\<close>

theorem C9_reread_throws:
  assumes "findReread e i = ReadThrows err" and "saveContact e i = None"
  shows "\<exists>mem' db'. process_contact e st i k (mem, db) = Continue (mem', db')
     \<and> contact_loop e st i (k # ks) (mem, db) = contact_loop e st (Suc i) ks (mem', db')
     \<and> results mem' = results mem @
          [\<lparr>contactId = string_of_nat i, contactName = name k, methods = [],
            overallStatus = Success\<rparr>]
     \<and> results db' = results mem'
     \<and> failureCount mem' = failureCount mem + 1 \<and> successCount mem' = successCount mem
     \<and> failureCount db' = failureCount mem + 1 \<and> successCount db' = successCount mem"
  using assms
  by (simp add: process_contact_def record_result_def save_progress_def pre_save_def
        overall_of_def Let_def del: string_of_nat.simps)

text \<open>Witness for C9: every re-read throws; contact A of the scenario campaign.\<close>

theorem C9_witness:
  "findReread env_reread_throws 0 = ReadThrows ''connection lost''
   \<and> saveContact env_reread_throws 0 = None
   \<and> (\<exists>mem' db'. process_contact env_reread_throws None 0 contact_A (campaign_abc, campaign_abc)
          = Continue (mem', db')
     \<and> contact_loop env_reread_throws None 0 [contact_A, contact_B] (campaign_abc, campaign_abc)
          = contact_loop env_reread_throws None (Suc 0) [contact_B] (mem', db')
     \<and> results mem' = results campaign_abc @
          [\<lparr>contactId = string_of_nat 0, contactName = name contact_A, methods = [],
            overallStatus = Success\<rparr>]
     \<and> results db' = results mem'
     \<and> failureCount mem' = failureCount campaign_abc + 1
     \<and> successCount mem' = successCount campaign_abc
     \<and> failureCount db' = failureCount campaign_abc + 1
     \<and> successCount db' = successCount campaign_abc)"
proof -
  have h1: "findReread env_reread_throws 0 = ReadThrows ''connection lost''"
    by (simp add: env_reread_throws_def env_reliable_def)
  have h2: "saveContact env_reread_throws 0 = None"
    by (simp add: env_reread_throws_def env_reliable_def)
  show ?thesis
    using h1 h2 C9_reread_throws [OF h1 h2, where st=None and k=contact_A and ks="[contact_B]"
        and mem=campaign_abc and db=campaign_abc]
    by simp
qed

subsection \<open>C10: a campaign without contacts\<close>

text \<open>
  Claim C10: \<^verbatim>\<open>startCampaign\<close> accepts a campaign with an empty contact list when its
  status permits, and the direct-path run sets the status to \<^verbatim>\<open>completed\<close> without
  touching the results or the counters: for a campaign with no results and counters at 0,
  the results stay empty and the counters 0.
\<close>

theorem C10_empty_contacts:
  assumes "contacts db = []" and "status db \<noteq> Running" and "status db \<noteq> Completed"
    and "findStart e = ReadDoc" and "saveStart e = None" and "findInitial e = ReadDoc"
    and "findSettings e = Inr st" and "saveFinal e = None"
  shows "\<exists>d. start_and_run e db = (Response 200 True ''Campaign started successfully'', d)
     \<and> status d = Completed \<and> results d = results db
     \<and> successCount d = successCount db \<and> failureCount d = failureCount db
     \<and> totalContacts d = 0
     \<and> (results db = [] \<and> successCount db = 0 \<and> failureCount db = 0 \<longrightarrow>
          results d = [] \<and> successCount d = 0 \<and> failureCount d = 0)"
  using assms
  by (simp add: start_and_run_def startCampaign_def processCampaignDirectly_def try_block_def
        mark_completed_def save_progress_def pre_save_def Let_def)

text \<open>Witness for C10: the draft campaign without contacts.\<close>

theorem C10_witness:
  "contacts campaign_empty = [] \<and> status campaign_empty = Draft
   \<and> findStart env_reliable = ReadDoc \<and> saveStart env_reliable = None
   \<and> findInitial env_reliable = ReadDoc \<and> findSettings env_reliable = Inr None
   \<and> saveFinal env_reliable = None
   \<and> results campaign_empty = [] \<and> successCount campaign_empty = 0
   \<and> failureCount campaign_empty = 0
   \<and> (\<exists>d. start_and_run env_reliable campaign_empty =
          (Response 200 True ''Campaign started successfully'', d)
        \<and> status d = Completed \<and> results d = [] \<and> successCount d = 0 \<and> failureCount d = 0
        \<and> totalContacts d = 0)"
proof -
  have c: "contacts campaign_empty = []" "status campaign_empty \<noteq> Running"
    "status campaign_empty \<noteq> Completed" "status campaign_empty = Draft"
    "results campaign_empty = []" "successCount campaign_empty = 0"
    "failureCount campaign_empty = 0"
    by (simp_all add: campaign_empty_def campaign_abc_def)
  from C10_empty_contacts [OF c(1,2,3) env_reliable_simps(3,2,1,8,6)] c
  show ?thesis
    by (auto simp: env_reliable_simps)
qed

end
